theory Spec2Isabelle
  imports Complex_Main
begin

section \<open>Common conventions\<close>

text \<open>
  Client identities are Python strings. Instants are the values read from the wall clock
  (\<^verbatim>\<open>time.time()\<close>); they are idealised as real numbers, and every operation receives
  the clock reading it makes as an argument \<open>current_time\<close>. An operation that reads the
  clock several times is modelled at a single instant unless stated otherwise.
\<close>

type_synonym client_id = string
type_synonym instant = real

text \<open>Python truthiness of a variable that holds \<^verbatim>\<open>None\<close> or a string: \<^verbatim>\<open>None\<close> and
  the empty string are false.\<close>

definition truthy :: "client_id option \<Rightarrow> bool" where
  "truthy v = (case v of None \<Rightarrow> False | Some c \<Rightarrow> c \<noteq> [])"

text \<open>Python's \<^verbatim>\<open>int(x)\<close> on a float truncates towards zero.\<close>

definition py_int :: "real \<Rightarrow> int" where
  "py_int x = (if 0 \<le> x then \<lfloor>x\<rfloor> else \<lceil>x\<rceil>)"

text \<open>Values stored in the dictionaries that the status operations return.\<close>

datatype py_value =
    PyNone
  | PyBool bool
  | PyInt int
  | PyStr string
  | PyList "string list"

type_synonym py_dict = "(string \<times> py_value) list"

definition py_optional_str :: "client_id option \<Rightarrow> py_value" where
  "py_optional_str v = (case v of None \<Rightarrow> PyNone | Some c \<Rightarrow> PyStr c)"

section \<open>TokenManager (server/token\_manager.py)\<close>

record token_manager =
  resource_name :: string
  token_holder :: "client_id option"
  request_queue :: "client_id list"
  token_acquired_time :: "instant option"
  cooldowns :: "client_id \<rightharpoonup> instant"
  cooldown_duration :: real
  pending_requests :: "client_id set"

definition TokenManager_init :: "string \<Rightarrow> real \<Rightarrow> token_manager" where
  "TokenManager_init name duration =
     \<lparr> resource_name = name,
       token_holder = None,
       request_queue = [],
       token_acquired_time = None,
       cooldowns = Map.empty,
       cooldown_duration = duration,
       pending_requests = {} \<rparr>"

text \<open>The \<^verbatim>\<open>for i, queued_id in enumerate(self.request_queue)\<close> loop of
  \<^verbatim>\<open>request_token\<close>: the index of the first occurrence, or \<^verbatim>\<open>None\<close>.\<close>

fun queue_position :: "client_id \<Rightarrow> client_id list \<Rightarrow> nat option" where
  "queue_position c [] = None"
| "queue_position c (queued_id # q) =
     (if queued_id = c then Some 0 else map_option Suc (queue_position c q))"

text \<open>Lines 43 to 71 of \<^verbatim>\<open>request_token\<close>, after the cooldown check has let the
  client through: the report for a client with a pending request, then grant or enqueue.\<close>

definition grant_or_enqueue ::
  "token_manager \<Rightarrow> client_id \<Rightarrow> instant \<Rightarrow> (bool \<times> int \<times> int) \<times> token_manager" where
  "grant_or_enqueue s client_id current_time =
     (case (if client_id \<in> pending_requests s
            then (case queue_position client_id (request_queue s) of
                    Some position \<Rightarrow> Some (False, int position, int position * 5)
                  | None \<Rightarrow>
                      if token_holder s = Some client_id then Some (True, 0, 0)
                      else None)
            else None) of
        Some outcome \<Rightarrow> (outcome, s)
      | None \<Rightarrow>
          if token_holder s = None \<and> request_queue s = []
          then ((True, 0, 0),
                s\<lparr>token_holder := Some client_id,
                  token_acquired_time := Some current_time,
                  pending_requests := insert client_id (pending_requests s)\<rparr>)
          else (let q = request_queue s @ [client_id];
                    position = int (length q) - 1
                in ((False, position, position * 5),
                    s\<lparr>request_queue := q,
                      pending_requests := insert client_id (pending_requests s)\<rparr>)))"

definition request_token ::
  "token_manager \<Rightarrow> client_id \<Rightarrow> instant \<Rightarrow> (bool \<times> int \<times> int) \<times> token_manager" where
  "request_token s client_id current_time =
     (case cooldowns s client_id of
        None \<Rightarrow> grant_or_enqueue s client_id current_time
      | Some cooldown_until \<Rightarrow>
          if current_time < cooldown_until
          then ((False, - 1, py_int (cooldown_until - current_time)), s)
          else grant_or_enqueue (s\<lparr>cooldowns := (cooldowns s)(client_id := None)\<rparr>)
                 client_id current_time)"

text \<open>
  The loop \<^verbatim>\<open>while self.request_queue and not next_holder\<close> of \<^verbatim>\<open>release_token\<close>.
  Its state is the queue, the cooldown table, the pending set and \<^verbatim>\<open>next_holder\<close>;
  the result is that state when the loop exits. The test \<^verbatim>\<open>not next_holder\<close> is
  Python truthiness, so a popped client whose identity is the empty string does not stop
  the loop.
\<close>

fun drain_queue ::
  "instant \<Rightarrow> client_id list \<Rightarrow> (client_id \<rightharpoonup> instant) \<Rightarrow> client_id set \<Rightarrow> client_id option \<Rightarrow>
   client_id option \<times> client_id list \<times> (client_id \<rightharpoonup> instant) \<times> client_id set" where
  "drain_queue current_time [] cd pend next_holder = (next_holder, [], cd, pend)"
| "drain_queue current_time (next_client # q) cd pend next_holder =
     (if truthy next_holder then (next_holder, next_client # q, cd, pend)
      else (case cd next_client of
              Some cooldown_until \<Rightarrow>
                if current_time < cooldown_until
                then drain_queue current_time q cd (pend - {next_client}) next_holder
                else drain_queue current_time q (cd(next_client := None)) pend (Some next_client)
            | None \<Rightarrow> drain_queue current_time q cd pend (Some next_client)))"

definition release_token ::
  "token_manager \<Rightarrow> client_id \<Rightarrow> instant \<Rightarrow> (bool \<times> client_id option) \<times> token_manager" where
  "release_token s client_id current_time =
     (if token_holder s \<noteq> Some client_id then ((False, None), s)
      else (case drain_queue current_time (request_queue s)
                   ((cooldowns s)(client_id \<mapsto> current_time + cooldown_duration s))
                   (pending_requests s - {client_id}) None of
              (next_holder, q, cd, pend) \<Rightarrow>
                if truthy next_holder
                then ((True, next_holder),
                      s\<lparr>token_holder := next_holder,
                        request_queue := q,
                        token_acquired_time := Some current_time,
                        cooldowns := cd,
                        pending_requests := pend\<rparr>)
                else ((True, next_holder),
                      s\<lparr>token_holder := None,
                        request_queue := q,
                        token_acquired_time := None,
                        cooldowns := cd,
                        pending_requests := pend\<rparr>)))"

definition force_release_token ::
  "token_manager \<Rightarrow> instant \<Rightarrow> (client_id option \<times> client_id option) \<times> token_manager" where
  "force_release_token s current_time =
     (let previous_holder = token_holder s;
          pend = (case previous_holder of
                    None \<Rightarrow> pending_requests s
                  | Some c \<Rightarrow>
                      if truthy previous_holder then pending_requests s - {c}
                      else pending_requests s)
      in (case request_queue s of
            next_holder # q \<Rightarrow>
              ((previous_holder, Some next_holder),
               s\<lparr>token_holder := Some next_holder,
                 request_queue := q,
                 token_acquired_time := Some current_time,
                 pending_requests := pend\<rparr>)
          | [] \<Rightarrow>
              ((previous_holder, None),
               s\<lparr>token_holder := None,
                 token_acquired_time := None,
                 pending_requests := pend\<rparr>)))"

definition get_status :: "token_manager \<Rightarrow> py_dict" where
  "get_status s =
     (let queue_list = request_queue s
      in [(''resource'', PyStr (resource_name s)),
          (''holder'', py_optional_str (token_holder s)),
          (''queue'', PyList queue_list),
          (''queue_length'', PyInt (int (length queue_list)))])"

definition is_token_held :: "token_manager \<Rightarrow> client_id option \<Rightarrow> bool" where
  "is_token_held s client_id =
     (case client_id of
        Some c \<Rightarrow> token_holder s = Some c
      | None \<Rightarrow> token_holder s \<noteq> None)"

definition is_in_cooldown ::
  "token_manager \<Rightarrow> client_id \<Rightarrow> instant \<Rightarrow> (bool \<times> int) \<times> token_manager" where
  "is_in_cooldown s client_id current_time =
     (case cooldowns s client_id of
        Some cooldown_until \<Rightarrow>
          if current_time < cooldown_until
          then ((True, py_int (cooldown_until - current_time)), s)
          else ((False, 0), s\<lparr>cooldowns := (cooldowns s)(client_id := None)\<rparr>)
      | None \<Rightarrow> ((False, 0), s))"

text \<open>The states a TokenManager can be in: the constructor's state and everything the
  public operations make of it, at any clock readings.\<close>

inductive tm_reachable :: "token_manager \<Rightarrow> bool" where
  tm_init: "tm_reachable (TokenManager_init name duration)"
| tm_request: "tm_reachable s \<Longrightarrow> tm_reachable (snd (request_token s c t))"
| tm_release: "tm_reachable s \<Longrightarrow> tm_reachable (snd (release_token s c t))"
| tm_force_release: "tm_reachable s \<Longrightarrow> tm_reachable (snd (force_release_token s t))"
| tm_is_in_cooldown: "tm_reachable s \<Longrightarrow> tm_reachable (snd (is_in_cooldown s c t))"

text \<open>The structural invariant of the queue, the holder and the pending set.\<close>

definition tm_invariant :: "token_manager \<Rightarrow> bool" where
  "tm_invariant s =
     (distinct (request_queue s) \<and>
      set (request_queue s) \<subseteq> pending_requests s \<and>
      (case token_holder s of
         None \<Rightarrow> True
       | Some c \<Rightarrow> c \<notin> set (request_queue s) \<and> c \<in> pending_requests s))"

text \<open>Whether a client is within an unexpired cooldown at an instant.\<close>

definition in_cooldown :: "(client_id \<rightharpoonup> instant) \<Rightarrow> client_id \<Rightarrow> instant \<Rightarrow> bool" where
  "in_cooldown cd c current_time =
     (case cd c of None \<Rightarrow> False | Some cooldown_until \<Rightarrow> current_time < cooldown_until)"

section \<open>DeadlockDetector (server/deadlock\_detector.py)\<close>

text \<open>
  The detector holds references to the hint and the skip TokenManager. Its background
  thread and stop event only decide when \<^verbatim>\<open>check_for_deadlocks\<close> runs; one run is
  modelled as one transition on the two managers, without interleaving of other calls.
  The \<^verbatim>\<open>print\<close> of the detection message is not modelled.
\<close>

record deadlock_detector =
  hint_token_manager :: token_manager
  skip_token_manager :: token_manager
  check_interval :: real

definition DeadlockDetector_init ::
  "token_manager \<Rightarrow> token_manager \<Rightarrow> real \<Rightarrow> deadlock_detector" where
  "DeadlockDetector_init hint skip interval =
     \<lparr> hint_token_manager = hint, skip_token_manager = skip, check_interval = interval \<rparr>"

text \<open>The reads \<^verbatim>\<open>status["holder"]\<close> and \<^verbatim>\<open>status["queue"]\<close> of a status dictionary.\<close>

definition status_holder :: "py_dict \<Rightarrow> client_id option" where
  "status_holder d = (case map_of d ''holder'' of Some (PyStr c) \<Rightarrow> Some c | _ \<Rightarrow> None)"

definition status_queue :: "py_dict \<Rightarrow> client_id list" where
  "status_queue d = (case map_of d ''queue'' of Some (PyList q) \<Rightarrow> q | _ \<Rightarrow> [])"

definition resolve_deadlock ::
  "deadlock_detector \<Rightarrow> instant \<Rightarrow> (client_id option \<times> client_id option) \<times> deadlock_detector" where
  "resolve_deadlock d current_time =
     (case force_release_token (hint_token_manager d) current_time of
        ((previous_holder, next_holder), hint') \<Rightarrow>
          ((previous_holder, next_holder), d\<lparr>hint_token_manager := hint'\<rparr>))"

definition check_for_deadlocks :: "deadlock_detector \<Rightarrow> instant \<Rightarrow> bool \<times> deadlock_detector" where
  "check_for_deadlocks d current_time =
     (let hint_status = get_status (hint_token_manager d);
          skip_status = get_status (skip_token_manager d)
      in (case (status_holder hint_status, status_holder skip_status) of
            (Some hint_holder, Some skip_holder) \<Rightarrow>
              (let hint_queue = status_queue hint_status;
                   skip_queue = status_queue skip_status
               in if hint_holder \<in> set skip_queue \<and> skip_holder \<in> set hint_queue
                  then (True, snd (resolve_deadlock d current_time))
                  else (False, d))
          | _ \<Rightarrow> (False, d)))"

section \<open>LeaderboardToken (server/leaderboard\_token.py)\<close>

text \<open>The message strings are kept as constructors that carry the number the f-string
  renders.\<close>

datatype lt_message =
    Cooldown_remaining real
  | Leaderboard_token_granted
  | Added_to_leaderboard_queue_Position nat
  | You_dont_hold_the_leaderboard_token
  | Leaderboard_token_passed_to client_id
  | Leaderboard_token_released

record leaderboard_token =
  lt_has_token :: bool
  lt_queue :: "client_id list"
  lt_current_holder :: "client_id option"
  last_used :: "client_id \<rightharpoonup> instant"
  cooldown_period :: real

definition LeaderboardToken_init :: leaderboard_token where
  "LeaderboardToken_init =
     \<lparr> lt_has_token = True, lt_queue = [], lt_current_holder = None,
       last_used = Map.empty, cooldown_period = 30 \<rparr>"

text \<open>\<^verbatim>\<open>xs.index(x)\<close> where \<open>x\<close> occurs in \<open>xs\<close>: the number of elements before its first
  occurrence.\<close>

definition list_index :: "client_id list \<Rightarrow> client_id \<Rightarrow> nat" where
  "list_index xs x = length (takeWhile (\<lambda>y. y \<noteq> x) xs)"

text \<open>Lines 24 to 32 of \<^verbatim>\<open>request_token\<close>, after the cooldown check. The index that
  \<^verbatim>\<open>self.queue.index(player_id)\<close> looks up exists, because the client is in the queue
  at that point.\<close>

definition lt_grant_or_enqueue ::
  "leaderboard_token \<Rightarrow> client_id \<Rightarrow> (bool \<times> lt_message) \<times> leaderboard_token" where
  "lt_grant_or_enqueue s player_id =
     (if lt_has_token s \<and> lt_current_holder s = None
      then ((True, Leaderboard_token_granted), s\<lparr>lt_current_holder := Some player_id\<rparr>)
      else (let q = (if player_id \<notin> set (lt_queue s) then lt_queue s @ [player_id]
                     else lt_queue s)
            in ((False, Added_to_leaderboard_queue_Position (list_index q player_id + 1)),
                s\<lparr>lt_queue := q\<rparr>)))"

definition LeaderboardToken_request_token ::
  "leaderboard_token \<Rightarrow> client_id \<Rightarrow> instant \<Rightarrow> (bool \<times> lt_message) \<times> leaderboard_token" where
  "LeaderboardToken_request_token s player_id current_time =
     (case last_used s player_id of
        None \<Rightarrow> lt_grant_or_enqueue s player_id
      | Some used \<Rightarrow>
          if current_time - used < cooldown_period s
          then ((False, Cooldown_remaining (cooldown_period s - (current_time - used))), s)
          else lt_grant_or_enqueue s player_id)"

definition LeaderboardToken_release_token ::
  "leaderboard_token \<Rightarrow> client_id \<Rightarrow> instant \<Rightarrow> (bool \<times> lt_message) \<times> leaderboard_token" where
  "LeaderboardToken_release_token s player_id current_time =
     (if lt_current_holder s \<noteq> Some player_id
      then ((False, You_dont_hold_the_leaderboard_token), s)
      else (let s1 = s\<lparr>last_used := (last_used s)(player_id \<mapsto> current_time)\<rparr>
            in (case lt_queue s1 of
                  next_holder # q \<Rightarrow>
                    ((True, Leaderboard_token_passed_to next_holder),
                     s1\<lparr>lt_current_holder := Some next_holder, lt_queue := q\<rparr>)
                | [] \<Rightarrow>
                    ((True, Leaderboard_token_released), s1\<lparr>lt_current_holder := None\<rparr>))))"

definition LeaderboardToken_get_status :: "leaderboard_token \<Rightarrow> py_dict" where
  "LeaderboardToken_get_status s =
     [(''has_token'', PyBool (lt_has_token s)),
      (''current_holder'', py_optional_str (lt_current_holder s)),
      (''queue'', PyList (lt_queue s))]"

inductive lt_reachable :: "leaderboard_token \<Rightarrow> bool" where
  lt_init: "lt_reachable LeaderboardToken_init"
| lt_request: "lt_reachable s \<Longrightarrow> lt_reachable (snd (LeaderboardToken_request_token s c t))"
| lt_release: "lt_reachable s \<Longrightarrow> lt_reachable (snd (LeaderboardToken_release_token s c t))"

section \<open>RaymondServer (server/raymond\_server.py)\<close>

datatype rs_message =
    In_cooldown_for int
  | Token_already_held
  | Already_in_queue_at_position int
  | Token_granted
  | Leaderboard_requested_by_multiple_players
  | In_queue

record raymond_server =
  rs_resource_name :: string
  rs_has_token :: bool
  rs_current_holder :: "client_id option"
  rs_queue :: "client_id list"
  rs_cooldowns :: "client_id \<rightharpoonup> instant"
  rs_cooldown_duration :: real

definition RaymondServer_init :: "string \<Rightarrow> real \<Rightarrow> raymond_server" where
  "RaymondServer_init name duration =
     \<lparr> rs_resource_name = name, rs_has_token = True, rs_current_holder = None,
       rs_queue = [], rs_cooldowns = Map.empty, rs_cooldown_duration = duration \<rparr>"

text \<open>Lines 40 to 67 of \<^verbatim>\<open>request_token\<close>, after the cooldown check.\<close>

definition rs_grant_or_enqueue ::
  "raymond_server \<Rightarrow> client_id \<Rightarrow> (bool \<times> int \<times> rs_message) \<times> raymond_server" where
  "rs_grant_or_enqueue s client_id =
     (if rs_current_holder s = Some client_id then ((True, 0, Token_already_held), s)
      else if client_id \<in> set (rs_queue s)
      then (let position = int (list_index (rs_queue s) client_id)
            in ((False, position, Already_in_queue_at_position position), s))
      else if rs_has_token s \<and> rs_current_holder s = None
      then ((True, 0, Token_granted),
            s\<lparr>rs_has_token := False, rs_current_holder := Some client_id\<rparr>)
      else (let q = rs_queue s @ [client_id]
            in if 1 < length q \<or> rs_current_holder s \<noteq> None
               then ((False, int (length q) - 1, Leaderboard_requested_by_multiple_players),
                     s\<lparr>rs_queue := q\<rparr>)
               else ((False, int (length q) - 1, In_queue), s\<lparr>rs_queue := q\<rparr>)))"

text \<open>The \<^verbatim>\<open>timestamp\<close> argument is not used by the code.\<close>

definition RaymondServer_request_token ::
  "raymond_server \<Rightarrow> client_id \<Rightarrow> int \<Rightarrow> instant \<Rightarrow> (bool \<times> int \<times> rs_message) \<times> raymond_server" where
  "RaymondServer_request_token s client_id timestamp current_time =
     (case rs_cooldowns s client_id of
        None \<Rightarrow> rs_grant_or_enqueue s client_id
      | Some cooldown_until \<Rightarrow>
          if current_time < cooldown_until
          then ((False, - 1, In_cooldown_for (py_int (cooldown_until - current_time))), s)
          else rs_grant_or_enqueue
                 (s\<lparr>rs_cooldowns := (rs_cooldowns s)(client_id := None)\<rparr>) client_id)"

text \<open>The loop \<^verbatim>\<open>while self.queue and not next_holder\<close> of \<^verbatim>\<open>release_token\<close>.\<close>

fun rs_drain_queue ::
  "instant \<Rightarrow> client_id list \<Rightarrow> (client_id \<rightharpoonup> instant) \<Rightarrow> client_id option \<Rightarrow>
   client_id option \<times> client_id list \<times> (client_id \<rightharpoonup> instant)" where
  "rs_drain_queue current_time [] cd next_holder = (next_holder, [], cd)"
| "rs_drain_queue current_time (next_client # q) cd next_holder =
     (if truthy next_holder then (next_holder, next_client # q, cd)
      else (case cd next_client of
              Some cooldown_until \<Rightarrow>
                if current_time < cooldown_until
                then rs_drain_queue current_time q cd next_holder
                else rs_drain_queue current_time q (cd(next_client := None)) (Some next_client)
            | None \<Rightarrow> rs_drain_queue current_time q cd (Some next_client)))"

definition RaymondServer_release_token ::
  "raymond_server \<Rightarrow> client_id \<Rightarrow> instant \<Rightarrow> (bool \<times> client_id option) \<times> raymond_server" where
  "RaymondServer_release_token s client_id current_time =
     (if rs_current_holder s \<noteq> Some client_id then ((False, None), s)
      else (case rs_drain_queue current_time (rs_queue s)
                   ((rs_cooldowns s)(client_id \<mapsto> current_time + rs_cooldown_duration s))
                   None of
              (next_holder, q, cd) \<Rightarrow>
                if truthy next_holder
                then ((True, next_holder),
                      s\<lparr>rs_current_holder := next_holder, rs_has_token := False,
                        rs_queue := q, rs_cooldowns := cd\<rparr>)
                else ((True, next_holder),
                      s\<lparr>rs_current_holder := None, rs_has_token := True,
                        rs_queue := q, rs_cooldowns := cd\<rparr>)))"

definition RaymondServer_get_status :: "raymond_server \<Rightarrow> py_dict" where
  "RaymondServer_get_status s =
     (let queue_list = rs_queue s
      in [(''resource'', PyStr (rs_resource_name s)),
          (''holder'', py_optional_str (rs_current_holder s)),
          (''queue'', PyList queue_list),
          (''queue_length'', PyInt (int (length queue_list)))])"

inductive rs_reachable :: "raymond_server \<Rightarrow> bool" where
  rs_init: "rs_reachable (RaymondServer_init name duration)"
| rs_request: "rs_reachable s \<Longrightarrow> rs_reachable (snd (RaymondServer_request_token s c ts t))"
| rs_release: "rs_reachable s \<Longrightarrow> rs_reachable (snd (RaymondServer_release_token s c t))"

section \<open>Clock synchronisation (server/clock\_sync.py, client/clock\_sync.py)\<close>

record logical_clock =
  timestamp :: int

definition LogicalClock_init :: logical_clock where
  "LogicalClock_init = \<lparr> timestamp = 0 \<rparr>"

definition increment :: "logical_clock \<Rightarrow> int \<times> logical_clock" where
  "increment c = (timestamp c + 1, c\<lparr>timestamp := timestamp c + 1\<rparr>)"

definition sync :: "logical_clock \<Rightarrow> int \<Rightarrow> int \<times> logical_clock" where
  "sync c received_time =
     (max (timestamp c) received_time + 1,
      c\<lparr>timestamp := max (timestamp c) received_time + 1\<rparr>)"

definition get_time :: "logical_clock \<Rightarrow> int" where
  "get_time c = timestamp c"

text \<open>
  The server's estimator. Timestamps and the offset are Python floats, idealised as
  reals. \<open>current_time\<close> is the clock reading stored as reference timestamp.
\<close>

record network_time_protocol =
  offset :: real
  reference_timestamp :: instant

definition NetworkTimeProtocol_init :: "instant \<Rightarrow> network_time_protocol" where
  "NetworkTimeProtocol_init current_time = \<lparr> offset = 0, reference_timestamp = current_time \<rparr>"

definition synchronize ::
  "network_time_protocol \<Rightarrow> real \<Rightarrow> real \<Rightarrow> real \<Rightarrow> real \<Rightarrow> instant \<Rightarrow>
   real \<times> network_time_protocol" where
  "synchronize s t1 t2 t3 t4 current_time =
     (let delay = (t4 - t1) - (t3 - t2);
          offset' = ((t2 - t1) + (t3 - t4)) / 2;
          s' = (if 0 < delay \<and> delay < 5
                then s\<lparr>offset := offset', reference_timestamp := current_time\<rparr>
                else s)
      in (offset s', s'))"

definition get_adjusted_time :: "network_time_protocol \<Rightarrow> instant \<Rightarrow> real" where
  "get_adjusted_time s current_time = current_time + offset s"

text \<open>
  The client's estimator. \<^verbatim>\<open>process_sync_response\<close> reads the clock twice: \<open>t4\<close> is the
  first reading, \<open>current_time\<close> the one stored as reference timestamp.
\<close>

record network_time_client =
  ntc_offset :: real
  ntc_reference_timestamp :: instant
  last_sync_time :: instant

definition NetworkTimeClient_init :: "instant \<Rightarrow> network_time_client" where
  "NetworkTimeClient_init current_time =
     \<lparr> ntc_offset = 0, ntc_reference_timestamp = current_time, last_sync_time = 0 \<rparr>"

definition request_sync :: "network_time_client \<Rightarrow> instant \<Rightarrow> instant \<times> network_time_client" where
  "request_sync s current_time = (current_time, s\<lparr>last_sync_time := current_time\<rparr>)"

definition process_sync_response ::
  "network_time_client \<Rightarrow> real \<Rightarrow> real \<Rightarrow> instant \<Rightarrow> instant \<Rightarrow> real \<times> network_time_client" where
  "process_sync_response s t2 t3 t4 current_time =
     (let t1 = last_sync_time s;
          delay = (t4 - t1) - (t3 - t2);
          offset' = ((t2 - t1) + (t3 - t4)) / 2;
          s' = (if 0 < delay \<and> delay < 5
                then s\<lparr>ntc_offset := offset', ntc_reference_timestamp := current_time\<rparr>
                else s)
      in (ntc_offset s', s'))"

definition ntc_get_adjusted_time :: "network_time_client \<Rightarrow> instant \<Rightarrow> real" where
  "ntc_get_adjusted_time s current_time = current_time + ntc_offset s"

section \<open>TimeWarpManager (server/time\_warp\_manager.py)\<close>

text \<open>
  The manager's guard is a \<^verbatim>\<open>threading.Lock\<close>, which is not reentrant, and two methods
  call \<^verbatim>\<open>deactivate_time_warp\<close> while they hold it. The guard is therefore part of the
  state: \<open>tw_lock\<close> tells whether it is held. A \<^verbatim>\<open>with self.lock\<close> block entered while
  the guard is held by the running thread itself never returns; not returning is the value
  \<open>None\<close>. Otherwise the block runs with the guard held and releases it on exit.
\<close>

datatype tw_message =
    TW_In_cooldown_for int
  | TW_Already_active_for int
  | TW_Time_Warp_activated

text \<open>A started \<^verbatim>\<open>threading.Timer\<close>: the delay, and the arguments of the callback.\<close>

datatype 'g timer = Timer (timer_delay: real) (timer_client: client_id) (timer_generation: 'g)

record time_warp_manager =
  tw_duration :: real
  tw_cooldown :: real
  active_warps :: "client_id \<rightharpoonup> instant \<times> instant"
  tw_cooldowns :: "client_id \<rightharpoonup> instant"
  tw_lock :: bool

definition TimeWarpManager_init :: "real \<Rightarrow> real \<Rightarrow> time_warp_manager" where
  "TimeWarpManager_init duration cooldown =
     \<lparr> tw_duration = duration, tw_cooldown = cooldown, active_warps = Map.empty,
       tw_cooldowns = Map.empty, tw_lock = False \<rparr>"

definition with_lock ::
  "time_warp_manager \<Rightarrow> (time_warp_manager \<Rightarrow> ('a \<times> time_warp_manager) option) \<Rightarrow>
   ('a \<times> time_warp_manager) option" where
  "with_lock s body =
     (if tw_lock s then None
      else (case body (s\<lparr>tw_lock := True\<rparr>) of
              None \<Rightarrow> None
            | Some (r, s') \<Rightarrow> Some (r, s'\<lparr>tw_lock := False\<rparr>)))"

definition deactivate_time_warp ::
  "time_warp_manager \<Rightarrow> client_id \<Rightarrow> instant \<Rightarrow> (bool \<times> time_warp_manager) option" where
  "deactivate_time_warp s client_id current_time =
     with_lock s (\<lambda>s.
       if client_id \<notin> dom (active_warps s) then Some (False, s)
       else Some (True,
               s\<lparr>active_warps := (active_warps s)(client_id := None),
                 tw_cooldowns := (tw_cooldowns s)(client_id \<mapsto> current_time + tw_cooldown s)\<rparr>))"

definition activate_time_warp ::
  "time_warp_manager \<Rightarrow> client_id \<Rightarrow> instant \<Rightarrow>
   (((bool \<times> real \<times> tw_message) \<times> instant timer option) \<times> time_warp_manager) option" where
  "activate_time_warp s client_id current_time =
     with_lock s (\<lambda>s.
       case (case tw_cooldowns s client_id of
               None \<Rightarrow> None
             | Some cooldown_until \<Rightarrow>
                 if current_time < cooldown_until
                 then Some (py_int (cooldown_until - current_time))
                 else None) of
         Some remaining \<Rightarrow>
           Some (((False, real_of_int remaining, TW_In_cooldown_for remaining), None), s)
       | None \<Rightarrow>
           (case (case active_warps s client_id of
                    None \<Rightarrow> None
                  | Some (start_time, end_time) \<Rightarrow>
                      if current_time < end_time then Some (py_int (end_time - current_time))
                      else None) of
              Some remaining \<Rightarrow>
                Some (((True, real_of_int remaining, TW_Already_active_for remaining), None), s)
            | None \<Rightarrow>
                (let start_time = current_time;
                     end_time = start_time + tw_duration s
                 in Some (((True, tw_duration s, TW_Time_Warp_activated),
                           Some (Timer (tw_duration s) client_id end_time)),
                          s\<lparr>active_warps :=
                             (active_warps s)(client_id \<mapsto> (start_time, end_time))\<rparr>))))"

definition auto_deactivate_time_warp ::
  "time_warp_manager \<Rightarrow> client_id \<Rightarrow> instant \<Rightarrow> instant \<Rightarrow> (unit \<times> time_warp_manager) option" where
  "auto_deactivate_time_warp s client_id expected_end_time current_time =
     with_lock s (\<lambda>s.
       case active_warps s client_id of
         None \<Rightarrow> Some ((), s)
       | Some (start_time, end_time) \<Rightarrow>
           if end_time = expected_end_time
           then (case deactivate_time_warp s client_id current_time of
                   None \<Rightarrow> None
                 | Some (success, s') \<Rightarrow> Some ((), s'))
           else Some ((), s))"

definition is_time_warp_active ::
  "time_warp_manager \<Rightarrow> client_id \<Rightarrow> instant \<Rightarrow> ((bool \<times> int) \<times> time_warp_manager) option" where
  "is_time_warp_active s client_id current_time =
     with_lock s (\<lambda>s.
       case active_warps s client_id of
         None \<Rightarrow> Some ((False, 0), s)
       | Some (start_time, end_time) \<Rightarrow>
           if current_time < end_time
           then Some ((True, py_int (end_time - current_time)), s)
           else (case deactivate_time_warp s client_id current_time of
                   None \<Rightarrow> None
                 | Some (success, s') \<Rightarrow> Some ((False, 0), s')))"

definition get_score_multiplier ::
  "time_warp_manager \<Rightarrow> client_id \<Rightarrow> instant \<Rightarrow> (int \<times> time_warp_manager) option" where
  "get_score_multiplier s client_id current_time =
     (case is_time_warp_active s client_id current_time of
        None \<Rightarrow> None
      | Some ((active, remaining), s') \<Rightarrow> Some (if active then 2 else 1, s'))"

section \<open>RicartAgrawala, timer-based variant (server/server.py)\<close>

text \<open>
  No method of this class calls another method that takes the guard, so every public
  operation is one atomic transition and the guard is not part of the state. The
  \<^verbatim>\<open>timestamp\<close> argument is the caller's logical (Lamport) timestamp.
\<close>

datatype py_error = NameError string | TypeError

record ricart_agrawala =
  ra_resource_name :: string
  requesting_clients :: "client_id \<rightharpoonup> int"
  deferred_replies :: "client_id \<rightharpoonup> client_id list"
  in_critical_section :: "client_id option"
  cs_timestamp :: "int option"
  cs_start_time :: "instant option"
  cs_duration :: real
  ra_cooldowns :: "client_id \<rightharpoonup> instant"
  ra_cooldown_duration :: real

definition RicartAgrawala_init :: "string \<Rightarrow> ricart_agrawala" where
  "RicartAgrawala_init name =
     \<lparr> ra_resource_name = name, requesting_clients = Map.empty,
       deferred_replies = Map.empty, in_critical_section = None, cs_timestamp = None,
       cs_start_time = None, cs_duration = 90, ra_cooldowns = Map.empty,
       ra_cooldown_duration = 120 \<rparr>"

text \<open>\<^verbatim>\<open>_release_critical_section\<close>: the release shared by the explicit release, the
  expiry check of a request and the timer callback.\<close>

definition internal_release_critical_section ::
  "ricart_agrawala \<Rightarrow> client_id \<Rightarrow> instant \<Rightarrow> ricart_agrawala" where
  "internal_release_critical_section s client_id current_time =
     s\<lparr>ra_cooldowns := (ra_cooldowns s)(client_id \<mapsto> current_time + ra_cooldown_duration s),
       in_critical_section := None,
       cs_timestamp := None,
       cs_start_time := None,
       deferred_replies := (deferred_replies s)(client_id := None)\<rparr>"

text \<open>The grant that ends \<^verbatim>\<open>request_critical_section\<close>, with the timer it starts.\<close>

definition grant_critical_section ::
  "ricart_agrawala \<Rightarrow> client_id \<Rightarrow> int \<Rightarrow> instant \<Rightarrow>
   ((bool \<times> string option \<times> real) \<times> int timer option) \<times> ricart_agrawala" where
  "grant_critical_section s client_id ts current_time =
     (((True, None, cs_duration s), Some (Timer (cs_duration s) client_id ts)),
      s\<lparr>in_critical_section := Some client_id,
        cs_timestamp := Some ts,
        cs_start_time := Some current_time\<rparr>)"

text \<open>The occupancy test \<^verbatim>\<open>if self.in_critical_section\<close> and the test
  \<^verbatim>\<open>self.cs_start_time and ...\<close> are Python truthiness: a holder with the empty identity
  counts as no holder, and a start instant of \<open>0\<close> as none. With the section occupied
  and no start instant stored, the sum \<^verbatim>\<open>self.cs_start_time + self.cs_duration\<close> raises
  \<^verbatim>\<open>TypeError\<close>.\<close>

definition request_critical_section ::
  "ricart_agrawala \<Rightarrow> client_id \<Rightarrow> int \<Rightarrow> instant \<Rightarrow>
   (py_error + (bool \<times> string option \<times> real) \<times> int timer option) \<times> ricart_agrawala" where
  "request_critical_section s client_id ts current_time =
     (case (case ra_cooldowns s client_id of
              None \<Rightarrow> None
            | Some cooldown_until \<Rightarrow>
                if current_time < cooldown_until
                then Some (py_int (cooldown_until - current_time))
                else None) of
        Some remaining \<Rightarrow> (Inr ((False, Some ''cooldown'', real_of_int remaining), None), s)
      | None \<Rightarrow>
          (case in_critical_section s of
             None \<Rightarrow>
               (case grant_critical_section s client_id ts current_time of
                  (r, s') \<Rightarrow> (Inr r, s'))
           | Some holder \<Rightarrow>
               if holder = [] then
                 (case grant_critical_section s client_id ts current_time of
                    (r, s') \<Rightarrow> (Inr r, s'))
               else if (case cs_start_time s of
                          None \<Rightarrow> False
                        | Some start \<Rightarrow> start \<noteq> 0 \<and> cs_duration s < current_time - start)
               then (case grant_critical_section
                            (internal_release_critical_section s holder current_time)
                            client_id ts current_time of
                       (r, s') \<Rightarrow> (Inr r, s'))
               else (let s1 = s\<lparr>deferred_replies :=
                                  (deferred_replies s)(holder \<mapsto>
                                     (case deferred_replies s holder of
                                        None \<Rightarrow> []
                                      | Some waiting \<Rightarrow> waiting) @ [client_id])\<rparr>
                     in (case cs_start_time s1 of
                           None \<Rightarrow> (Inl TypeError, s1)
                         | Some start \<Rightarrow>
                             (Inr ((False, Some ''in_use'',
                                    real_of_int (py_int ((start + cs_duration s1) - current_time))),
                                   None), s1)))))"

text \<open>\<^verbatim>\<open>_auto_release_critical_section\<close>, the callback of the timer started by a grant.\<close>

definition auto_release_critical_section ::
  "ricart_agrawala \<Rightarrow> client_id \<Rightarrow> int \<Rightarrow> instant \<Rightarrow> ricart_agrawala" where
  "auto_release_critical_section s client_id ts current_time =
     (if in_critical_section s = Some client_id \<and> cs_timestamp s = Some ts
      then internal_release_critical_section s client_id current_time
      else s)"

definition release_critical_section ::
  "ricart_agrawala \<Rightarrow> client_id \<Rightarrow> instant \<Rightarrow> bool \<times> ricart_agrawala" where
  "release_critical_section s client_id current_time =
     (if in_critical_section s = Some client_id
      then (True, internal_release_critical_section s client_id current_time)
      else (False, s))"

section \<open>RicartAgrawala, simple variant (server/ricart\_agrawala.py)\<close>

text \<open>
  The module consists of the class alone: it imports nothing, so the only name its global
  namespace binds is the class, and the built-in namespace has no \<^verbatim>\<open>time\<close>. Reading a
  global name that is not bound raises \<^verbatim>\<open>NameError\<close>.
\<close>

definition module_globals :: "string list" where
  "module_globals = [''RicartAgrawala'']"

definition load_global :: "string \<Rightarrow> py_error + unit" where
  "load_global name = (if name \<in> set module_globals then Inr () else Inl (NameError name))"

record simple_ricart_agrawala =
  sra_in_critical_section :: bool
  sra_current_holder :: "client_id option"
  sra_start_time :: instant
  sra_duration :: real

definition simple_RicartAgrawala_init :: simple_ricart_agrawala where
  "simple_RicartAgrawala_init =
     \<lparr> sra_in_critical_section = False, sra_current_holder = None,
       sra_start_time = 0, sra_duration = 30 \<rparr>"

datatype sra_message = Not_in_critical_section | Released_critical_section

text \<open>The argument is optional because \<^verbatim>\<open>request_critical_section\<close> passes
  \<^verbatim>\<open>self.current_holder\<close>.\<close>

definition simple_release_critical_section ::
  "simple_ricart_agrawala \<Rightarrow> client_id option \<Rightarrow> (bool \<times> sra_message) \<times> simple_ricart_agrawala" where
  "simple_release_critical_section s player_id =
     (if \<not> sra_in_critical_section s \<or> sra_current_holder s \<noteq> player_id
      then ((False, Not_in_critical_section), s)
      else ((True, Released_critical_section),
            s\<lparr>sra_in_critical_section := False, sra_current_holder := None\<rparr>))"

definition simple_grant ::
  "simple_ricart_agrawala \<Rightarrow> client_id \<Rightarrow> instant \<Rightarrow>
   (bool \<times> client_id option \<times> real) \<times> simple_ricart_agrawala" where
  "simple_grant s player_id current_time =
     ((True, None, sra_duration s),
      s\<lparr>sra_in_critical_section := True,
        sra_current_holder := Some player_id,
        sra_start_time := current_time\<rparr>)"

definition simple_request_critical_section ::
  "simple_ricart_agrawala \<Rightarrow> client_id \<Rightarrow> int \<Rightarrow> instant \<Rightarrow>
   (py_error + bool \<times> client_id option \<times> real) \<times> simple_ricart_agrawala" where
  "simple_request_critical_section s player_id ts clock =
     (case load_global ''time'' of
        Inl e \<Rightarrow> (Inl e, s)
      | Inr u \<Rightarrow>
          (let current_time = clock
           in if sra_in_critical_section s
              then (let remaining = (sra_start_time s + sra_duration s) - current_time
                    in if remaining \<le> 0
                       then (case simple_grant
                                    (snd (simple_release_critical_section s (sra_current_holder s)))
                                    player_id current_time of
                               (r, s') \<Rightarrow> (Inr r, s'))
                       else (Inr (False, sra_current_holder s, remaining), s))
              else (case simple_grant s player_id current_time of
                      (r, s') \<Rightarrow> (Inr r, s'))))"

text \<open>The dictionary with the keys \<^verbatim>\<open>in_use\<close>, \<^verbatim>\<open>current_holder\<close> and
  \<^verbatim>\<open>remaining\<close> is given as the triple of its values.\<close>

definition simple_get_status ::
  "simple_ricart_agrawala \<Rightarrow> instant \<Rightarrow>
   py_error + (bool \<times> client_id option \<times> real)" where
  "simple_get_status s clock =
     (case load_global ''time'' of
        Inl e \<Rightarrow> Inl e
      | Inr u \<Rightarrow>
          (let current_time = clock;
               remaining = (if sra_in_critical_section s
                            then max 0 ((sra_start_time s + sra_duration s) - current_time)
                            else 0)
           in Inr (sra_in_critical_section s, sra_current_holder s, remaining)))"

section \<open>State properties\<close>

text \<open>A free token has an empty queue.\<close>

definition free_token_empty_queue :: "token_manager \<Rightarrow> bool" where
  "free_token_empty_queue s = (token_holder s = None \<longrightarrow> request_queue s = [])"

text \<open>No queued client has an entry in the cooldown table.\<close>

definition no_queued_cooldown :: "token_manager \<Rightarrow> bool" where
  "no_queued_cooldown s = (set (request_queue s) \<inter> dom (cooldowns s) = {})"

text \<open>The queue invariant of RaymondServer.\<close>

definition rs_invariant :: "raymond_server \<Rightarrow> bool" where
  "rs_invariant s =
     (distinct (rs_queue s) \<and>
      (case rs_current_holder s of None \<Rightarrow> True | Some c \<Rightarrow> c \<notin> set (rs_queue s)))"

section \<open>Concrete states\<close>

text \<open>A hint manager after client A was granted the token at instant 0 and released it at
  instant 1: the token is free and A is in cooldown until instant 31.\<close>

definition tm_after_release :: token_manager where
  "tm_after_release =
     snd (release_token (snd (request_token (TokenManager_init ''hint'' 30) ''A'' 0)) ''A'' 1)"

text \<open>A hint manager after client A was granted the token at instant 0 and the client
  whose identity is the empty string asked for it at instant 1.\<close>

definition tm_empty_id_queued :: token_manager where
  "tm_empty_id_queued =
     snd (request_token (snd (request_token (TokenManager_init ''hint'' 30) ''A'' 0)) '''' 1)"

text \<open>The same manager after client B asked for the token at instant 2: A holds it, the
  client with the empty identity is first in the queue and B is second.\<close>

definition tm_empty_id_front :: token_manager where
  "tm_empty_id_front = snd (request_token tm_empty_id_queued ''B'' 2)"

text \<open>A holds the hint token and waits for the skip token; C holds the skip token and
  waits for the hint token.\<close>

definition hint_deadlocked :: token_manager where
  "hint_deadlocked =
     snd (request_token (snd (request_token (TokenManager_init ''hint'' 30) ''A'' 0)) ''C'' 1)"

definition skip_deadlocked :: token_manager where
  "skip_deadlocked =
     snd (request_token (snd (request_token (TokenManager_init ''skip'' 30) ''C'' 0)) ''A'' 1)"

definition detector_deadlocked :: deadlock_detector where
  "detector_deadlocked = DeadlockDetector_init hint_deadlocked skip_deadlocked 5"

text \<open>A LeaderboardToken after client A asked for the token at instant 0 and again at
  instant 1.\<close>

definition lt_holder_queued :: leaderboard_token where
  "lt_holder_queued =
     snd (LeaderboardToken_request_token
            (snd (LeaderboardToken_request_token LeaderboardToken_init ''A'' 0)) ''A'' 1)"

text \<open>A RaymondServer after client A was granted the token and client B was queued.\<close>

definition rs_one_queued :: raymond_server where
  "rs_one_queued =
     snd (RaymondServer_request_token
            (snd (RaymondServer_request_token (RaymondServer_init ''leaderboard'' 30) ''A'' 1 0))
            ''B'' 2 1)"

text \<open>A TimeWarpManager with duration 90 in which client X opened a session at instant 0:
  the state that \<^verbatim>\<open>activate_time_warp\<close> leaves.\<close>

definition tw_session_X :: time_warp_manager where
  "tw_session_X = (TimeWarpManager_init 90 120)\<lparr>active_warps := [''X'' \<mapsto> (0, 90)]\<rparr>"

text \<open>An estimator on the client after a synchronisation request sent at instant 0.\<close>

definition ntc_requested :: network_time_client where
  "ntc_requested = snd (request_sync (NetworkTimeClient_init 0) 0)"

section \<open>TokenManager: the queue, the holder and the pending set\<close>

lemma queue_position_None: "queue_position c q = None \<longleftrightarrow> c \<notin> set q"
  by (induction q) auto

lemma drain_queue_invariant:
  "drain_queue t q cd pend nh = (nh', q', cd', pend') \<Longrightarrow>
   distinct q \<Longrightarrow> set q \<subseteq> pend \<Longrightarrow>
   (case nh of None \<Rightarrow> True | Some c \<Rightarrow> c \<notin> set q \<and> c \<in> pend) \<Longrightarrow>
   distinct q' \<and> set q' \<subseteq> pend' \<and>
   (case nh' of None \<Rightarrow> True | Some c \<Rightarrow> c \<notin> set q' \<and> c \<in> pend')"
proof (induction t q cd pend nh rule: drain_queue.induct)
  case (1 t cd pend nh)
  then show ?case by (auto split: option.splits)
next
  case (2 t x q cd pend nh)
  from "2.prems" have dq: "distinct q" and xq: "x \<notin> set q" and xp: "x \<in> pend"
    and qp: "set q \<subseteq> pend" by auto
  show ?case
  proof (cases "truthy nh")
    case True
    with "2.prems" show ?thesis by (auto split: option.splits)
  next
    case False
    show ?thesis
    proof (cases "cd x")
      case None
      from "2.prems"(1) False None
      have "drain_queue t q cd pend (Some x) = (nh', q', cd', pend')" by simp
      from "2.IH"(1) [OF False None this dq qp] xq xp show ?thesis by simp
    next
      case (Some u)
      show ?thesis
      proof (cases "t < u")
        case True
        from "2.prems"(1) False Some True
        have e: "drain_queue t q cd (pend - {x}) nh = (nh', q', cd', pend')" by simp
        from qp xq have qp': "set q \<subseteq> pend - {x}" by auto
        from "2.prems"(4) have
          "case nh of None \<Rightarrow> True | Some c \<Rightarrow> c \<notin> set q \<and> c \<in> pend - {x}"
          by (auto split: option.splits)
        from "2.IH"(2) [OF False Some True e dq qp' this] show ?thesis .
      next
        case nlt: False
        from "2.prems"(1) False Some nlt
        have "drain_queue t q (cd(x := None)) pend (Some x) = (nh', q', cd', pend')" by simp
        from "2.IH"(3) [OF False Some nlt this dq qp] xq xp show ?thesis by simp
      qed
    qed
  qed
qed

text \<open>When the loop ends without a client that counts as a holder, the queue is used up.\<close>

lemma drain_queue_exhausts:
  "drain_queue t q cd pend nh = (nh', q', cd', pend') \<Longrightarrow> \<not> truthy nh' \<Longrightarrow> q' = []"
  by (induction t q cd pend nh rule: drain_queue.induct) (auto split: if_splits option.splits)

lemma tm_invariant_init: "tm_invariant (TokenManager_init name duration)"
  by (simp add: tm_invariant_def TokenManager_init_def)

lemma tm_invariant_grant_or_enqueue:
  assumes "tm_invariant s"
  shows "tm_invariant (snd (grant_or_enqueue s c t))"
proof (cases "c \<in> pending_requests s")
  case True
  show ?thesis
  proof (cases "queue_position c (request_queue s)")
    case (Some i)
    with True assms show ?thesis by (simp add: grant_or_enqueue_def)
  next
    case None
    then have cq: "c \<notin> set (request_queue s)" by (simp add: queue_position_None)
    show ?thesis
    proof (cases "token_holder s = Some c")
      case True
      with \<open>c \<in> pending_requests s\<close> None assms show ?thesis
        by (simp add: grant_or_enqueue_def)
    next
      case False
      with \<open>c \<in> pending_requests s\<close> None cq assms show ?thesis
        by (cases "token_holder s")
           (auto simp: grant_or_enqueue_def tm_invariant_def Let_def)
    qed
  qed
next
  case False
  with assms have "c \<notin> set (request_queue s)" and "token_holder s \<noteq> Some c"
    by (auto simp: tm_invariant_def split: option.splits)
  with False assms show ?thesis
    by (cases "token_holder s")
       (auto simp: grant_or_enqueue_def tm_invariant_def Let_def)
qed

lemma tm_invariant_cooldowns_update:
  "tm_invariant (s\<lparr>cooldowns := cd\<rparr>) = tm_invariant s"
  by (simp add: tm_invariant_def split: option.splits)

lemma tm_invariant_request:
  "tm_invariant s \<Longrightarrow> tm_invariant (snd (request_token s c t))"
  by (simp add: request_token_def tm_invariant_grant_or_enqueue
        tm_invariant_cooldowns_update split: option.splits)

lemma tm_invariant_release:
  assumes "tm_invariant s"
  shows "tm_invariant (snd (release_token s c t))"
proof (cases "token_holder s = Some c")
  case False
  with assms show ?thesis by (simp add: release_token_def)
next
  case True
  obtain nh q cd pend where d:
    "drain_queue t (request_queue s) ((cooldowns s)(c \<mapsto> t + cooldown_duration s))
       (pending_requests s - {c}) None = (nh, q, cd, pend)"
    by (metis prod_cases4)
  from assms True have "distinct (request_queue s)"
    and "set (request_queue s) \<subseteq> pending_requests s - {c}"
    by (auto simp: tm_invariant_def)
  with d have "distinct q \<and> set q \<subseteq> pend \<and>
     (case nh of None \<Rightarrow> True | Some c \<Rightarrow> c \<notin> set q \<and> c \<in> pend)"
    by (intro drain_queue_invariant [OF d]) simp_all
  with True d show ?thesis
    by (simp add: release_token_def tm_invariant_def truthy_def split: option.splits)
qed

lemma tm_invariant_force_release:
  "tm_invariant s \<Longrightarrow> tm_invariant (snd (force_release_token s t))"
  by (auto simp: tm_invariant_def force_release_token_def Let_def truthy_def
           split: option.splits list.splits if_splits)

lemma tm_invariant_is_in_cooldown:
  "tm_invariant s \<Longrightarrow> tm_invariant (snd (is_in_cooldown s c t))"
  by (auto simp: tm_invariant_def is_in_cooldown_def split: option.splits)

lemma tm_reachable_invariant: "tm_reachable s \<Longrightarrow> tm_invariant s"
  by (induction rule: tm_reachable.induct)
     (simp_all add: tm_invariant_init tm_invariant_request tm_invariant_release
        tm_invariant_force_release tm_invariant_is_in_cooldown)

section \<open>TokenManager: a free token has an empty queue\<close>

lemma free_init: "free_token_empty_queue (TokenManager_init name duration)"
  by (simp add: free_token_empty_queue_def TokenManager_init_def)

lemma free_grant_or_enqueue:
  "free_token_empty_queue s \<Longrightarrow> free_token_empty_queue (snd (grant_or_enqueue s c t))"
  by (auto simp add: free_token_empty_queue_def grant_or_enqueue_def Let_def
           split: option.splits)

lemma free_cooldowns_update:
  "free_token_empty_queue (s\<lparr>cooldowns := cd\<rparr>) = free_token_empty_queue s"
  by (simp add: free_token_empty_queue_def)

lemma free_request:
  "free_token_empty_queue s \<Longrightarrow> free_token_empty_queue (snd (request_token s c t))"
  by (simp add: request_token_def free_grant_or_enqueue free_cooldowns_update
           split: option.splits)

lemma free_release:
  assumes "free_token_empty_queue s"
  shows "free_token_empty_queue (snd (release_token s c t))"
proof (cases "token_holder s = Some c")
  case False
  with assms show ?thesis by (simp add: release_token_def)
next
  case True
  obtain nh q cd pend where d:
    "drain_queue t (request_queue s) ((cooldowns s)(c \<mapsto> t + cooldown_duration s))
       (pending_requests s - {c}) None = (nh, q, cd, pend)"
    by (metis prod_cases4)
  show ?thesis
  proof (cases "truthy nh")
    case True
    with \<open>token_holder s = Some c\<close> d show ?thesis
      by (simp add: release_token_def free_token_empty_queue_def truthy_def
               split: option.splits)
  next
    case False
    with d have "q = []" by (rule drain_queue_exhausts)
    with False \<open>token_holder s = Some c\<close> d show ?thesis
      by (simp add: release_token_def free_token_empty_queue_def)
  qed
qed

lemma free_force_release: "free_token_empty_queue (snd (force_release_token s t))"
  by (simp add: free_token_empty_queue_def force_release_token_def Let_def
           split: list.splits)

lemma grant_when_free:
  assumes "token_holder s = None" and "request_queue s = []"
  shows "grant_or_enqueue s c t =
     ((True, 0, 0),
      s\<lparr>token_holder := Some c, token_acquired_time := Some t,
        pending_requests := insert c (pending_requests s)\<rparr>)"
  using assms by (simp add: grant_or_enqueue_def)

text \<open>
  Claim C10, as amended. The property that a free token has an empty queue holds in the
  constructor's state and is preserved by \<^verbatim>\<open>request_token\<close>, \<^verbatim>\<open>release_token\<close> and
  \<^verbatim>\<open>force_release_token\<close>. Consequently a request that arrives while the token is free
  is never queued: it is granted at once with position 0 when the client is not within an
  unexpired cooldown, and it is refused with position -1, the state unchanged, when the
  client is within one.
\<close>

theorem free_token_never_queues:
  "free_token_empty_queue (TokenManager_init name duration) \<and>
   (free_token_empty_queue s \<longrightarrow>
      free_token_empty_queue (snd (request_token s c t)) \<and>
      free_token_empty_queue (snd (release_token s c t)) \<and>
      free_token_empty_queue (snd (force_release_token s t))) \<and>
   (free_token_empty_queue s \<and> token_holder s = None \<and> \<not> in_cooldown (cooldowns s) c t \<longrightarrow>
      fst (request_token s c t) = (True, 0, 0) \<and>
      token_holder (snd (request_token s c t)) = Some c \<and>
      token_acquired_time (snd (request_token s c t)) = Some t \<and>
      request_queue (snd (request_token s c t)) = []) \<and>
   (free_token_empty_queue s \<and> token_holder s = None \<and> in_cooldown (cooldowns s) c t \<longrightarrow>
      fst (fst (request_token s c t)) = False \<and>
      fst (snd (fst (request_token s c t))) = - 1 \<and>
      snd (request_token s c t) = s)"
proof (intro conjI impI)
  show "free_token_empty_queue (TokenManager_init name duration)" by (rule free_init)
next
  assume "free_token_empty_queue s"
  then show "free_token_empty_queue (snd (request_token s c t))" by (rule free_request)
next
  assume "free_token_empty_queue s"
  then show "free_token_empty_queue (snd (release_token s c t))" by (rule free_release)
next
  show "free_token_empty_queue (snd (force_release_token s t))" by (rule free_force_release)
next
  assume a: "free_token_empty_queue s \<and> token_holder s = None \<and> \<not> in_cooldown (cooldowns s) c t"
  then have h: "token_holder s = None" and q: "request_queue s = []"
    by (simp_all add: free_token_empty_queue_def)
  from a h q show "fst (request_token s c t) = (True, 0, 0)"
    by (simp add: request_token_def in_cooldown_def grant_when_free split: option.splits)
  from a h q show "token_holder (snd (request_token s c t)) = Some c"
    by (simp add: request_token_def in_cooldown_def grant_when_free split: option.splits)
  from a h q show "token_acquired_time (snd (request_token s c t)) = Some t"
    by (simp add: request_token_def in_cooldown_def grant_when_free split: option.splits)
  from a h q show "request_queue (snd (request_token s c t)) = []"
    by (simp add: request_token_def in_cooldown_def grant_when_free split: option.splits)
next
  assume a: "free_token_empty_queue s \<and> token_holder s = None \<and> in_cooldown (cooldowns s) c t"
  then show "fst (fst (request_token s c t)) = False"
    by (simp add: request_token_def in_cooldown_def split: option.splits)
  from a show "fst (snd (fst (request_token s c t))) = - 1"
    by (simp add: request_token_def in_cooldown_def split: option.splits)
  from a show "snd (request_token s c t) = s"
    by (simp add: request_token_def in_cooldown_def split: option.splits)
qed

lemma tm_after_release_fields:
  "token_holder tm_after_release = None"
  "request_queue tm_after_release = []"
  "cooldowns tm_after_release ''A'' = Some 31"
  by (simp_all add: tm_after_release_def TokenManager_init_def request_token_def
        grant_or_enqueue_def release_token_def truthy_def)

theorem free_token_never_queues_witness:
  "free_token_empty_queue (TokenManager_init ''hint'' 30) \<and>
   token_holder (TokenManager_init ''hint'' 30) = None \<and>
   \<not> in_cooldown (cooldowns (TokenManager_init ''hint'' 30)) ''A'' 0 \<and>
   fst (request_token (TokenManager_init ''hint'' 30) ''A'' 0) = (True, 0, 0) \<and>
   free_token_empty_queue (snd (request_token (TokenManager_init ''hint'' 30) ''A'' 0)) \<and>
   free_token_empty_queue tm_after_release \<and>
   token_holder tm_after_release = None \<and>
   in_cooldown (cooldowns tm_after_release) ''A'' 2 \<and>
   snd (request_token tm_after_release ''A'' 2) = tm_after_release"
proof -
  have i: "free_token_empty_queue (TokenManager_init ''hint'' 30) \<and>
      token_holder (TokenManager_init ''hint'' 30) = None \<and>
      \<not> in_cooldown (cooldowns (TokenManager_init ''hint'' 30)) ''A'' 0"
    by (simp add: free_token_empty_queue_def TokenManager_init_def in_cooldown_def)
  have r: "free_token_empty_queue tm_after_release \<and>
      token_holder tm_after_release = None \<and>
      in_cooldown (cooldowns tm_after_release) ''A'' 2"
    by (simp add: free_token_empty_queue_def tm_after_release_fields in_cooldown_def)
  from i r
    free_token_never_queues [of "''hint''" 30 "TokenManager_init ''hint'' 30" "''A''" 0]
    free_token_never_queues [of "''hint''" 30 tm_after_release "''A''" 2]
  show ?thesis by blast
qed

text \<open>
  Claim C10 as stated fails in its last clause: in \<open>tm_after_release\<close> the token is free,
  and the request of client A at instant 2 is not granted but refused, because A released
  the token at instant 1 and is in cooldown until instant 31.
\<close>

theorem free_token_request_refused_counterexample:
  "token_holder tm_after_release = None \<and>
   request_queue tm_after_release = [] \<and>
   fst (request_token tm_after_release ''A'' 2) = (False, - 1, 29)"
  by (simp add: tm_after_release_def TokenManager_init_def request_token_def
        grant_or_enqueue_def release_token_def truthy_def py_int_def)

section \<open>TokenManager: release and forced release\<close>

lemma drain_queue_shrinks:
  "drain_queue t q cd pend nh = (nh', q', cd', pend') \<Longrightarrow>
   set q' \<subseteq> set q \<and> dom cd' \<subseteq> dom cd \<and> pend' \<subseteq> pend"
proof (induction t q cd pend nh rule: drain_queue.induct)
  case (1 t cd pend nh)
  then show ?case by simp
next
  case (2 t x q cd pend nh)
  show ?case
  proof (cases "truthy nh")
    case True
    with "2.prems" show ?thesis by auto
  next
    case False
    show ?thesis
    proof (cases "cd x")
      case None
      from "2.prems" False None
      have "drain_queue t q cd pend (Some x) = (nh', q', cd', pend')" by simp
      from "2.IH"(1) [OF False None this] show ?thesis by auto
    next
      case (Some u)
      show ?thesis
      proof (cases "t < u")
        case True
        from "2.prems" False Some True
        have "drain_queue t q cd (pend - {x}) nh = (nh', q', cd', pend')" by simp
        from "2.IH"(2) [OF False Some True this] show ?thesis by auto
      next
        case nlt: False
        from "2.prems" False Some nlt
        have "drain_queue t q (cd(x := None)) pend (Some x) = (nh', q', cd', pend')" by simp
        from "2.IH"(3) [OF False Some nlt this]
        have a: "set q' \<subseteq> set q \<and> dom cd' \<subseteq> dom (cd(x := None)) \<and> pend' \<subseteq> pend" .
        have b: "dom (cd(x := None)) \<subseteq> dom cd" by auto
        have c: "set q \<subseteq> set (x # q)" by auto
        from a b c show ?thesis by blast
      qed
    qed
  qed
qed

lemma nqc_init: "no_queued_cooldown (TokenManager_init name duration)"
  by (simp add: no_queued_cooldown_def TokenManager_init_def)

lemma nqc_grant_or_enqueue:
  "no_queued_cooldown s \<Longrightarrow> cooldowns s c = None \<Longrightarrow>
   no_queued_cooldown (snd (grant_or_enqueue s c t))"
  by (auto simp: no_queued_cooldown_def grant_or_enqueue_def Let_def split: option.splits)

lemma nqc_pop: "no_queued_cooldown s \<Longrightarrow> no_queued_cooldown (s\<lparr>cooldowns := (cooldowns s)(c := None)\<rparr>)"
  by (auto simp: no_queued_cooldown_def)

lemma nqc_request:
  "no_queued_cooldown s \<Longrightarrow> no_queued_cooldown (snd (request_token s c t))"
  by (simp add: request_token_def nqc_grant_or_enqueue nqc_pop split: option.splits)

lemma nqc_release:
  assumes "no_queued_cooldown s" and "tm_invariant s"
  shows "no_queued_cooldown (snd (release_token s c t))"
proof (cases "token_holder s = Some c")
  case False
  with assms show ?thesis by (simp add: release_token_def)
next
  case True
  obtain nh q cd pend where d:
    "drain_queue t (request_queue s) ((cooldowns s)(c \<mapsto> t + cooldown_duration s))
       (pending_requests s - {c}) None = (nh, q, cd, pend)"
    by (metis prod_cases4)
  from drain_queue_shrinks [OF d]
  have "set q \<subseteq> set (request_queue s)" and "dom cd \<subseteq> insert c (dom (cooldowns s))"
    by auto
  moreover from assms(2) True have "c \<notin> set (request_queue s)"
    by (simp add: tm_invariant_def)
  ultimately have "set q \<inter> dom cd = {}"
    using assms(1) by (auto simp: no_queued_cooldown_def)
  with True d show ?thesis
    by (simp add: release_token_def no_queued_cooldown_def)
qed

lemma nqc_force_release:
  "no_queued_cooldown s \<Longrightarrow> no_queued_cooldown (snd (force_release_token s t))"
  by (auto simp: no_queued_cooldown_def force_release_token_def Let_def split: list.splits)

lemma nqc_is_in_cooldown:
  "no_queued_cooldown s \<Longrightarrow> no_queued_cooldown (snd (is_in_cooldown s c t))"
  by (auto simp: no_queued_cooldown_def is_in_cooldown_def split: option.splits)

lemma tm_reachable_no_queued_cooldown: "tm_reachable s \<Longrightarrow> no_queued_cooldown s"
  by (induction rule: tm_reachable.induct)
     (simp_all add: nqc_init nqc_request nqc_release nqc_force_release nqc_is_in_cooldown
        tm_reachable_invariant)

text \<open>On a queue whose front client has no cooldown entry and a non-empty identity, the
  loop pops that client and stops.\<close>

lemma drain_queue_front:
  "cd x = None \<Longrightarrow> x \<noteq> [] \<Longrightarrow>
   drain_queue t (x # q) cd pend None = (Some x, q, cd, pend)"
  by (cases q) (simp_all add: truthy_def)

lemma drain_queue_front_expired:
  "cd x = Some u \<Longrightarrow> \<not> t < u \<Longrightarrow> x \<noteq> [] \<Longrightarrow>
   drain_queue t (x # q) cd pend None = (Some x, q, cd(x := None), pend)"
  by (cases q) (simp_all add: truthy_def)

lemma drain_queue_keeps:
  "drain_queue t q cd pend nh = (nh', q', cd', pend') \<Longrightarrow>
   c \<notin> set q \<or> in_cooldown cd c t \<Longrightarrow> cd' c = cd c"
proof (induction t q cd pend nh rule: drain_queue.induct)
  case (1 t cd pend nh)
  then show ?case by simp
next
  case (2 t x q cd pend nh)
  show ?case
  proof (cases "truthy nh")
    case True
    with "2.prems" show ?thesis by auto
  next
    case False
    show ?thesis
    proof (cases "cd x")
      case None
      from "2.prems" False None
      have "drain_queue t q cd pend (Some x) = (nh', q', cd', pend')" by simp
      from "2.IH"(1) [OF False None this] "2.prems"(2) show ?thesis by auto
    next
      case (Some u)
      show ?thesis
      proof (cases "t < u")
        case True
        from "2.prems" False Some True
        have "drain_queue t q cd (pend - {x}) nh = (nh', q', cd', pend')" by simp
        from "2.IH"(2) [OF False Some True this] "2.prems"(2) show ?thesis by auto
      next
        case nlt: False
        from "2.prems" False Some nlt
        have d: "drain_queue t q (cd(x := None)) pend (Some x) = (nh', q', cd', pend')" by simp
        from "2.prems"(2) Some nlt have xc: "x \<noteq> c"
          by (auto simp: in_cooldown_def)
        with "2.prems"(2) have "c \<notin> set q \<or> in_cooldown (cd(x := None)) c t"
          by (auto simp: in_cooldown_def)
        from "2.IH"(3) [OF False Some nlt d this] xc show ?thesis by simp
      qed
    qed
  qed
qed

lemma release_token_records_cooldown:
  assumes "token_holder s = Some c"
    and "0 < cooldown_duration s \<or> c \<notin> set (request_queue s)"
  shows "fst (fst (release_token s c t)) = True \<and>
         cooldowns (snd (release_token s c t)) c = Some (t + cooldown_duration s)"
proof -
  obtain nh q cd pend where d:
    "drain_queue t (request_queue s) ((cooldowns s)(c \<mapsto> t + cooldown_duration s))
       (pending_requests s - {c}) None = (nh, q, cd, pend)"
    by (metis prod_cases4)
  from assms(2) have "c \<notin> set (request_queue s) \<or>
      in_cooldown ((cooldowns s)(c \<mapsto> t + cooldown_duration s)) c t"
    by (auto simp: in_cooldown_def)
  from drain_queue_keeps [OF d this] have "cd c = Some (t + cooldown_duration s)" by simp
  with assms(1) d show ?thesis by (simp add: release_token_def)
qed

lemma force_release_token_effect:
  "cooldowns (snd (force_release_token s t)) = cooldowns s \<and>
   fst (force_release_token s t) =
     (token_holder s, case request_queue s of [] \<Rightarrow> None | x # q \<Rightarrow> Some x) \<and>
   token_holder (snd (force_release_token s t)) =
     (case request_queue s of [] \<Rightarrow> None | x # q \<Rightarrow> Some x) \<and>
   request_queue (snd (force_release_token s t)) = tl (request_queue s) \<and>
   token_acquired_time (snd (force_release_token s t)) =
     (case request_queue s of [] \<Rightarrow> None | x # q \<Rightarrow> Some t) \<and>
   pending_requests s - (case token_holder s of None \<Rightarrow> {} | Some c \<Rightarrow> {c})
     \<subseteq> pending_requests (snd (force_release_token s t))"
  by (auto simp: force_release_token_def Let_def split: list.splits option.splits)

lemma force_release_agrees_with_release:
  assumes "tm_reachable s" and "token_holder s = Some c" and "[] \<notin> set (request_queue s)"
  shows "token_holder (snd (force_release_token s t)) = token_holder (snd (release_token s c t)) \<and>
         request_queue (snd (force_release_token s t)) = request_queue (snd (release_token s c t)) \<and>
         token_acquired_time (snd (force_release_token s t)) =
           token_acquired_time (snd (release_token s c t))"
proof (cases "request_queue s")
  case Nil
  with assms(2) show ?thesis
    by (simp add: force_release_token_def release_token_def truthy_def Let_def)
next
  case (Cons x q)
  from assms(1) have "tm_invariant s" and "no_queued_cooldown s"
    by (simp_all add: tm_reachable_invariant tm_reachable_no_queued_cooldown)
  with Cons assms(2) have "x \<noteq> c" and "cooldowns s x = None"
    by (auto simp: tm_invariant_def no_queued_cooldown_def)
  then have "((cooldowns s)(c \<mapsto> t + cooldown_duration s)) x = None" by simp
  moreover from assms(3) Cons have "x \<noteq> []" by auto
  ultimately have "drain_queue t (x # q) ((cooldowns s)(c \<mapsto> t + cooldown_duration s))
      (pending_requests s - {c}) None =
      (Some x, q, (cooldowns s)(c \<mapsto> t + cooldown_duration s), pending_requests s - {c})"
    by (rule drain_queue_front)
  with Cons assms(2) \<open>x \<noteq> []\<close> show ?thesis
    by (simp add: force_release_token_def release_token_def truthy_def Let_def)
qed

text \<open>What the loop computes on a queue without the empty identity.\<close>

lemma drain_queue_spec:
  "[] \<notin> set q \<Longrightarrow>
   drain_queue t q cd pend None =
     (case dropWhile (\<lambda>x. in_cooldown cd x t) q of
        [] \<Rightarrow> (None, [], cd, pend - set q)
      | x # r \<Rightarrow> (Some x, r, cd(x := None), pend - set (takeWhile (\<lambda>x. in_cooldown cd x t) q)))"
proof (induction q arbitrary: pend)
  case Nil
  show ?case by simp
next
  case (Cons x q)
  show ?case
  proof (cases "in_cooldown cd x t")
    case True
    then obtain u where "cd x = Some u" "t < u"
      by (auto simp: in_cooldown_def split: option.splits)
    then have step:
      "drain_queue t (x # q) cd pend None = drain_queue t q cd (pend - {x}) None"
      by (simp add: truthy_def)
    from Cons.prems have "[] \<notin> set q" by simp
    note ih = Cons.IH [OF this, of "pend - {x}"]
    have sets: "pend - {x} - A = pend - insert x A" for A by auto
    show ?thesis
    proof (cases "dropWhile (\<lambda>x. in_cooldown cd x t) q")
      case Nil
      show ?thesis unfolding step ih by (simp add: True sets Nil)
    next
      case (Cons y r)
      show ?thesis unfolding step ih by (simp add: True sets Cons)
    qed
  next
    case False
    from Cons.prems have nx: "x \<noteq> []" by auto
    show ?thesis
    proof (cases "cd x")
      case None
      then have "cd(x := None) = cd" by auto
      moreover from None nx
      have "drain_queue t (x # q) cd pend None = (Some x, q, cd, pend)"
        by (rule drain_queue_front)
      ultimately show ?thesis using False by simp
    next
      case (Some u)
      with False have "\<not> t < u" by (simp add: in_cooldown_def)
      with Some have "drain_queue t (x # q) cd pend None = (Some x, q, cd(x := None), pend)"
        using nx by (rule drain_queue_front_expired)
      with False show ?thesis by simp
    qed
  qed
qed

text \<open>What \<^verbatim>\<open>release_token\<close> does for the holder when no queued client has the empty
  identity: the clients at the front that are within an unexpired cooldown are popped and
  leave the pending set, the first other client becomes the holder at the instant of the
  release, and without such a client the token is free.\<close>

lemma release_token_spec:
  assumes "token_holder s = Some c" and "[] \<notin> set (request_queue s)"
  shows "release_token s c t =
     (let cd = (cooldowns s)(c \<mapsto> t + cooldown_duration s);
          skipped = takeWhile (\<lambda>x. in_cooldown cd x t) (request_queue s)
      in case dropWhile (\<lambda>x. in_cooldown cd x t) (request_queue s) of
           [] \<Rightarrow>
             ((True, None),
              s\<lparr>token_holder := None, request_queue := [], token_acquired_time := None,
                cooldowns := cd,
                pending_requests := pending_requests s - {c} - set (request_queue s)\<rparr>)
         | x # r \<Rightarrow>
             ((True, Some x),
              s\<lparr>token_holder := Some x, request_queue := r,
                token_acquired_time := Some t,
                cooldowns := cd(x := None),
                pending_requests := pending_requests s - {c} - set skipped\<rparr>))"
proof (cases "dropWhile (\<lambda>x. in_cooldown ((cooldowns s)(c \<mapsto> t + cooldown_duration s)) x t)
                (request_queue s)")
  case Nil
  show ?thesis
    by (simp add: assms(1) release_token_def drain_queue_spec [OF assms(2)] truthy_def
          Let_def Nil)
next
  case (Cons x r)
  then have "x \<in> set (request_queue s)"
    by (metis list.set_intros(1) set_dropWhileD)
  with assms(2) have nx: "x \<noteq> []" by auto
  show ?thesis
    by (simp add: assms(1) release_token_def drain_queue_spec [OF assms(2)] truthy_def
          Let_def Cons nx)
qed

lemma deadlocked_fields:
  "token_holder hint_deadlocked = Some ''A''"
  "request_queue hint_deadlocked = [''C'']"
  "token_holder skip_deadlocked = Some ''C''"
  "request_queue skip_deadlocked = [''A'']"
  "cooldown_duration hint_deadlocked = 30"
  by (simp_all add: hint_deadlocked_def skip_deadlocked_def TokenManager_init_def
        request_token_def grant_or_enqueue_def)

lemma hint_deadlocked_reachable: "tm_reachable hint_deadlocked"
  unfolding hint_deadlocked_def by (intro tm_reachable.intros)

text \<open>In a reachable state whose holder and queued clients have non-empty identities,
  \<^verbatim>\<open>release_token\<close> by the holder leaves exactly the state that
  \<^verbatim>\<open>force_release_token\<close> leaves, with the holder's cooldown entry added.\<close>

lemma release_is_force_release_with_cooldown:
  assumes "tm_reachable s" and "token_holder s = Some c" and "c \<noteq> []"
    and "[] \<notin> set (request_queue s)"
  shows "snd (release_token s c t) =
           (snd (force_release_token s t))
             \<lparr>cooldowns := (cooldowns s)(c \<mapsto> t + cooldown_duration s)\<rparr>"
proof (cases "request_queue s")
  case Nil
  with assms(2,3) show ?thesis
    by (cases s) (simp add: force_release_token_def release_token_def truthy_def Let_def)
next
  case (Cons x q)
  from assms(1) have "tm_invariant s" and "no_queued_cooldown s"
    by (simp_all add: tm_reachable_invariant tm_reachable_no_queued_cooldown)
  with Cons assms(2) have "x \<noteq> c" and "cooldowns s x = None"
    by (auto simp: tm_invariant_def no_queued_cooldown_def)
  then have "((cooldowns s)(c \<mapsto> t + cooldown_duration s)) x = None" by simp
  moreover from assms(4) Cons have nx: "x \<noteq> []" by auto
  ultimately have "drain_queue t (x # q) ((cooldowns s)(c \<mapsto> t + cooldown_duration s))
      (pending_requests s - {c}) None =
      (Some x, q, (cooldowns s)(c \<mapsto> t + cooldown_duration s), pending_requests s - {c})"
    by (rule drain_queue_front)
  with Cons assms(2,3) nx show ?thesis
    by (cases s) (simp add: force_release_token_def release_token_def truthy_def Let_def)
qed

lemma tm_empty_id_front_reachable: "tm_reachable tm_empty_id_front"
  unfolding tm_empty_id_front_def tm_empty_id_queued_def by (intro tm_reachable.intros)

text \<open>
  Claim C1 fails on the code for a queued client whose identity is the empty string. The
  state \<open>tm_empty_id_front\<close> is reached by three requests: client A holds the token, the
  queue holds the empty identity and then B, and no client has a cooldown entry.
  \<^verbatim>\<open>force_release_token\<close> at instant 3 records no cooldown and promotes the front
  client, the empty identity. The drain of \<^verbatim>\<open>release_token\<close> by A at the same instant
  does not stop at that client, because it tests \<^verbatim>\<open>next_holder\<close> for truthiness: it
  promotes B and leaves the first client popped but pending. So the two operations do not
  promote by the same drain. \<^verbatim>\<open>release_token\<close> records the expiry 33 for A.
\<close>

theorem force_release_and_release_drain_differ:
  "tm_reachable tm_empty_id_front \<and>
   token_holder tm_empty_id_front = Some ''A'' \<and>
   request_queue tm_empty_id_front = ['''', ''B''] \<and>
   cooldowns tm_empty_id_front = Map.empty \<and>
   fst (force_release_token tm_empty_id_front 3) = (Some ''A'', Some '''') \<and>
   token_holder (snd (force_release_token tm_empty_id_front 3)) = Some '''' \<and>
   request_queue (snd (force_release_token tm_empty_id_front 3)) = [''B''] \<and>
   cooldowns (snd (force_release_token tm_empty_id_front 3)) = Map.empty \<and>
   fst (release_token tm_empty_id_front ''A'' 3) = (True, Some ''B'') \<and>
   token_holder (snd (release_token tm_empty_id_front ''A'' 3)) = Some ''B'' \<and>
   request_queue (snd (release_token tm_empty_id_front ''A'' 3)) = [] \<and>
   '''' \<in> pending_requests (snd (release_token tm_empty_id_front ''A'' 3)) \<and>
   cooldowns (snd (release_token tm_empty_id_front ''A'' 3)) ''A'' = Some 33"
  by (simp add: tm_empty_id_front_reachable)
     (simp add: tm_empty_id_front_def tm_empty_id_queued_def TokenManager_init_def
        request_token_def grant_or_enqueue_def release_token_def force_release_token_def
        truthy_def)

text \<open>
  Claim C4 fails on the code for a queued client whose identity is the empty string. In
  \<open>tm_empty_id_queued\<close> client A holds the token, the queue holds the empty identity
  alone, and that client has no cooldown entry. After A releases at instant 2 the client
  has been popped, it is not the holder, the token is free with no acquisition instant,
  and the client is still in the pending set; the call returns the empty string as next
  holder. The loop and the assignment after it test \<^verbatim>\<open>next_holder\<close> for truthiness.
\<close>

theorem release_token_drops_empty_identity:
  "token_holder tm_empty_id_queued = Some ''A'' \<and>
   request_queue tm_empty_id_queued = [''''] \<and>
   cooldowns tm_empty_id_queued '''' = None \<and>
   fst (release_token tm_empty_id_queued ''A'' 2) = (True, Some '''') \<and>
   token_holder (snd (release_token tm_empty_id_queued ''A'' 2)) = None \<and>
   token_acquired_time (snd (release_token tm_empty_id_queued ''A'' 2)) = None \<and>
   request_queue (snd (release_token tm_empty_id_queued ''A'' 2)) = [] \<and>
   '''' \<in> pending_requests (snd (release_token tm_empty_id_queued ''A'' 2))"
  by (simp add: tm_empty_id_queued_def TokenManager_init_def request_token_def
        grant_or_enqueue_def release_token_def truthy_def)

section \<open>DeadlockDetector\<close>

lemma status_of_get_status:
  "status_holder (get_status s) = token_holder s"
  "status_queue (get_status s) = request_queue s"
  by (simp_all add: status_holder_def status_queue_def get_status_def py_optional_str_def
        Let_def split: option.splits)

lemma check_for_deadlocks_result:
  "fst (check_for_deadlocks d t) \<longleftrightarrow>
     (\<exists>a b. token_holder (hint_token_manager d) = Some a \<and>
            token_holder (skip_token_manager d) = Some b \<and>
            a \<in> set (request_queue (skip_token_manager d)) \<and>
            b \<in> set (request_queue (hint_token_manager d)))"
  by (auto simp: check_for_deadlocks_def status_of_get_status Let_def split: option.splits)

lemma check_for_deadlocks_resolution:
  assumes "fst (check_for_deadlocks d t)"
  shows "snd (check_for_deadlocks d t) =
           d\<lparr>hint_token_manager := snd (force_release_token (hint_token_manager d) t)\<rparr>"
  using assms
  by (auto simp: check_for_deadlocks_def status_of_get_status resolve_deadlock_def Let_def
      split: option.splits prod.splits if_splits)

text \<open>
  Claim C2. \<^verbatim>\<open>check_for_deadlocks\<close> returns true exactly when both holders are not
  none, the hint holder is in the skip queue and the skip holder is in the hint queue.
  When it returns true on a hint manager in a reachable state, the hint holder afterwards
  is the front of the former hint queue (none for an empty queue) and differs from the
  former hint holder; the skip manager is untouched.
\<close>

theorem check_for_deadlocks_detects_and_resolves:
  "(fst (check_for_deadlocks d t) \<longleftrightarrow>
     (\<exists>a b. token_holder (hint_token_manager d) = Some a \<and>
            token_holder (skip_token_manager d) = Some b \<and>
            a \<in> set (request_queue (skip_token_manager d)) \<and>
            b \<in> set (request_queue (hint_token_manager d)))) \<and>
   (tm_reachable (hint_token_manager d) \<and> fst (check_for_deadlocks d t) \<longrightarrow>
      token_holder (hint_token_manager (snd (check_for_deadlocks d t)))
        \<noteq> token_holder (hint_token_manager d) \<and>
      token_holder (hint_token_manager (snd (check_for_deadlocks d t))) =
        (case request_queue (hint_token_manager d) of [] \<Rightarrow> None | x # q \<Rightarrow> Some x) \<and>
      skip_token_manager (snd (check_for_deadlocks d t)) = skip_token_manager d)"
proof (intro conjI impI)
  show "fst (check_for_deadlocks d t) \<longleftrightarrow>
     (\<exists>a b. token_holder (hint_token_manager d) = Some a \<and>
            token_holder (skip_token_manager d) = Some b \<and>
            a \<in> set (request_queue (skip_token_manager d)) \<and>
            b \<in> set (request_queue (hint_token_manager d)))"
    by (rule check_for_deadlocks_result)
next
  assume a: "tm_reachable (hint_token_manager d) \<and> fst (check_for_deadlocks d t)"
  then have inv: "tm_invariant (hint_token_manager d)" by (simp add: tm_reachable_invariant)
  from a have r: "snd (check_for_deadlocks d t) =
      d\<lparr>hint_token_manager := snd (force_release_token (hint_token_manager d) t)\<rparr>"
    by (simp add: check_for_deadlocks_resolution)
  from a obtain h where h: "token_holder (hint_token_manager d) = Some h"
    by (auto simp: check_for_deadlocks_result)
  show "token_holder (hint_token_manager (snd (check_for_deadlocks d t))) =
        (case request_queue (hint_token_manager d) of [] \<Rightarrow> None | x # q \<Rightarrow> Some x)"
    by (simp add: r force_release_token_effect)
  from inv h show "token_holder (hint_token_manager (snd (check_for_deadlocks d t)))
        \<noteq> token_holder (hint_token_manager d)"
    by (auto simp: r force_release_token_effect tm_invariant_def split: list.splits)
  show "skip_token_manager (snd (check_for_deadlocks d t)) = skip_token_manager d"
    by (simp add: r)
qed

theorem check_for_deadlocks_detects_and_resolves_witness:
  "tm_reachable (hint_token_manager detector_deadlocked) \<and>
   fst (check_for_deadlocks detector_deadlocked 2) \<and>
   token_holder (hint_token_manager detector_deadlocked) = Some ''A'' \<and>
   token_holder (hint_token_manager (snd (check_for_deadlocks detector_deadlocked 2))) =
     Some ''C''"
proof -
  have r: "tm_reachable (hint_token_manager detector_deadlocked)"
    by (simp add: detector_deadlocked_def DeadlockDetector_init_def hint_deadlocked_reachable)
  have f: "fst (check_for_deadlocks detector_deadlocked 2)"
    by (simp add: check_for_deadlocks_result detector_deadlocked_def DeadlockDetector_init_def
          deadlocked_fields)
  from r f check_for_deadlocks_detects_and_resolves [of detector_deadlocked 2]
  show ?thesis
    by (simp add: detector_deadlocked_def DeadlockDetector_init_def deadlocked_fields)
qed

section \<open>The leaderboard managers\<close>

lemma rs_drain_queue_invariant:
  "rs_drain_queue t q cd nh = (nh', q', cd') \<Longrightarrow>
   distinct q \<Longrightarrow>
   (case nh of None \<Rightarrow> True | Some c \<Rightarrow> c \<notin> set q) \<Longrightarrow>
   distinct q' \<and> (case nh' of None \<Rightarrow> True | Some c \<Rightarrow> c \<notin> set q')"
proof (induction t q cd nh rule: rs_drain_queue.induct)
  case (1 t cd nh)
  then show ?case by (auto split: option.splits)
next
  case (2 t x q cd nh)
  from "2.prems" have dq: "distinct q" and xq: "x \<notin> set q" by auto
  show ?case
  proof (cases "truthy nh")
    case True
    with "2.prems" show ?thesis by (auto split: option.splits)
  next
    case False
    show ?thesis
    proof (cases "cd x")
      case None
      from "2.prems"(1) False None
      have "rs_drain_queue t q cd (Some x) = (nh', q', cd')" by simp
      from "2.IH"(1) [OF False None this dq] xq show ?thesis by simp
    next
      case (Some u)
      show ?thesis
      proof (cases "t < u")
        case True
        from "2.prems"(1) False Some True
        have e: "rs_drain_queue t q cd nh = (nh', q', cd')" by simp
        from "2.prems"(3) have "case nh of None \<Rightarrow> True | Some c \<Rightarrow> c \<notin> set q"
          by (auto split: option.splits)
        from "2.IH"(2) [OF False Some True e dq this] show ?thesis .
      next
        case nlt: False
        from "2.prems"(1) False Some nlt
        have "rs_drain_queue t q (cd(x := None)) (Some x) = (nh', q', cd')" by simp
        from "2.IH"(3) [OF False Some nlt this dq] xq show ?thesis by simp
      qed
    qed
  qed
qed

lemma rs_invariant_init: "rs_invariant (RaymondServer_init name duration)"
  by (simp add: rs_invariant_def RaymondServer_init_def)

lemma rs_invariant_grant_or_enqueue:
  "rs_invariant s \<Longrightarrow> rs_invariant (snd (rs_grant_or_enqueue s c))"
  by (cases "rs_current_holder s")
     (auto simp: rs_invariant_def rs_grant_or_enqueue_def Let_def)

lemma rs_invariant_cooldowns_update:
  "rs_invariant (s\<lparr>rs_cooldowns := cd\<rparr>) = rs_invariant s"
  by (simp add: rs_invariant_def split: option.splits)

lemma rs_invariant_request:
  "rs_invariant s \<Longrightarrow> rs_invariant (snd (RaymondServer_request_token s c ts t))"
  by (simp add: RaymondServer_request_token_def rs_invariant_grant_or_enqueue
        rs_invariant_cooldowns_update split: option.splits)

lemma rs_invariant_release:
  assumes "rs_invariant s"
  shows "rs_invariant (snd (RaymondServer_release_token s c t))"
proof (cases "rs_current_holder s = Some c")
  case False
  with assms show ?thesis by (simp add: RaymondServer_release_token_def)
next
  case True
  obtain nh q cd where d:
    "rs_drain_queue t (rs_queue s) ((rs_cooldowns s)(c \<mapsto> t + rs_cooldown_duration s)) None
       = (nh, q, cd)"
    by (metis prod_cases3)
  from assms have "distinct (rs_queue s)" by (simp add: rs_invariant_def)
  with d have "distinct q \<and> (case nh of None \<Rightarrow> True | Some c \<Rightarrow> c \<notin> set q)"
    by (intro rs_drain_queue_invariant [OF d]) simp_all
  with True d show ?thesis
    by (simp add: RaymondServer_release_token_def rs_invariant_def truthy_def
             split: option.splits)
qed

lemma rs_reachable_invariant: "rs_reachable s \<Longrightarrow> rs_invariant s"
  by (induction rule: rs_reachable.induct)
     (simp_all add: rs_invariant_init rs_invariant_request rs_invariant_release)

lemma lt_distinct_request:
  "distinct (lt_queue s) \<Longrightarrow> distinct (lt_queue (snd (LeaderboardToken_request_token s c t)))"
  by (simp add: LeaderboardToken_request_token_def lt_grant_or_enqueue_def Let_def
        split: option.splits)

lemma lt_distinct_release:
  "distinct (lt_queue s) \<Longrightarrow> distinct (lt_queue (snd (LeaderboardToken_release_token s c t)))"
  by (auto simp: LeaderboardToken_release_token_def Let_def split: list.splits)

lemma lt_reachable_distinct: "lt_reachable s \<Longrightarrow> distinct (lt_queue s)"
  by (induction rule: lt_reachable.induct)
     (simp_all add: lt_distinct_request lt_distinct_release LeaderboardToken_init_def)

text \<open>
  Claim C5, as amended. In every reachable state of a TokenManager and of a RaymondServer
  the queue has no duplicates and the holder is not in the queue. In every reachable
  state of a LeaderboardToken the queue has no duplicates.
\<close>

theorem queues_distinct_holder_not_queued:
  "(tm_reachable s \<longrightarrow>
      distinct (request_queue s) \<and> token_holder s \<notin> Some ` set (request_queue s)) \<and>
   (rs_reachable r \<longrightarrow>
      distinct (rs_queue r) \<and> rs_current_holder r \<notin> Some ` set (rs_queue r)) \<and>
   (lt_reachable l \<longrightarrow> distinct (lt_queue l))"
proof (intro conjI impI)
  assume "tm_reachable s"
  then have i: "tm_invariant s" by (rule tm_reachable_invariant)
  then show "distinct (request_queue s)" by (simp add: tm_invariant_def)
  from i show "token_holder s \<notin> Some ` set (request_queue s)"
    by (auto simp: tm_invariant_def)
next
  assume "rs_reachable r"
  then have i: "rs_invariant r" by (rule rs_reachable_invariant)
  then show "distinct (rs_queue r)" by (simp add: rs_invariant_def)
  from i show "rs_current_holder r \<notin> Some ` set (rs_queue r)"
    by (auto simp: rs_invariant_def)
next
  assume "lt_reachable l"
  then show "distinct (lt_queue l)" by (rule lt_reachable_distinct)
qed


lemma lt_holder_queued_fields:
  "lt_current_holder lt_holder_queued = Some ''A''"
  "lt_queue lt_holder_queued = [''A'']"
  by (simp_all add: lt_holder_queued_def LeaderboardToken_request_token_def
        lt_grant_or_enqueue_def LeaderboardToken_init_def Let_def)

lemma lt_holder_queued_reachable: "lt_reachable lt_holder_queued"
  unfolding lt_holder_queued_def by (intro lt_reachable.intros)

lemma rs_one_queued_fields:
  "rs_current_holder rs_one_queued = Some ''A''"
  "rs_queue rs_one_queued = [''B'']"
  by (simp_all add: rs_one_queued_def RaymondServer_request_token_def rs_grant_or_enqueue_def
        RaymondServer_init_def Let_def)

lemma rs_one_queued_reachable: "rs_reachable rs_one_queued"
  unfolding rs_one_queued_def by (intro rs_reachable.intros)

theorem queues_distinct_holder_not_queued_witness:
  "tm_reachable hint_deadlocked \<and> rs_reachable rs_one_queued \<and> lt_reachable lt_holder_queued \<and>
   distinct (request_queue hint_deadlocked) \<and>
   token_holder hint_deadlocked \<notin> Some ` set (request_queue hint_deadlocked) \<and>
   distinct (rs_queue rs_one_queued) \<and>
   rs_current_holder rs_one_queued \<notin> Some ` set (rs_queue rs_one_queued) \<and>
   distinct (lt_queue lt_holder_queued)"
  using queues_distinct_holder_not_queued [of hint_deadlocked rs_one_queued lt_holder_queued]
    hint_deadlocked_reachable rs_one_queued_reachable lt_holder_queued_reachable
  by blast

text \<open>
  Claim C5 as stated fails for LeaderboardToken: its \<^verbatim>\<open>request_token\<close> does not look at
  who holds the token before it enqueues, so a holder that asks again is queued behind
  itself. After client A asked twice, A is the holder and A is in the queue.
\<close>

theorem leaderboard_holder_queued_counterexample:
  "lt_reachable lt_holder_queued \<and>
   lt_current_holder lt_holder_queued = Some ''A'' \<and>
   ''A'' \<in> set (lt_queue lt_holder_queued)"
  by (simp add: lt_holder_queued_reachable lt_holder_queued_fields)

text \<open>
  Claim C9, as amended. \<^verbatim>\<open>RaymondServer.get_status\<close> returns the dictionary with the
  keys \<^verbatim>\<open>resource\<close>, \<^verbatim>\<open>holder\<close>, \<^verbatim>\<open>queue\<close> and \<^verbatim>\<open>queue_length\<close>, holding the resource
  name, the current holder, the queue in order and its length.
  \<^verbatim>\<open>LeaderboardToken.get_status\<close> returns the dictionary with the keys \<^verbatim>\<open>has_token\<close>,
  \<^verbatim>\<open>current_holder\<close> and \<^verbatim>\<open>queue\<close>, holding the token flag, the current holder and the
  queue in order.
\<close>

theorem leaderboard_status_shapes:
  "map fst (RaymondServer_get_status r) = [''resource'', ''holder'', ''queue'', ''queue_length''] \<and>
   map_of (RaymondServer_get_status r) ''resource'' = Some (PyStr (rs_resource_name r)) \<and>
   map_of (RaymondServer_get_status r) ''holder'' = Some (py_optional_str (rs_current_holder r)) \<and>
   map_of (RaymondServer_get_status r) ''queue'' = Some (PyList (rs_queue r)) \<and>
   map_of (RaymondServer_get_status r) ''queue_length'' =
     Some (PyInt (int (length (rs_queue r)))) \<and>
   map fst (LeaderboardToken_get_status l) = [''has_token'', ''current_holder'', ''queue''] \<and>
   map_of (LeaderboardToken_get_status l) ''has_token'' = Some (PyBool (lt_has_token l)) \<and>
   map_of (LeaderboardToken_get_status l) ''current_holder'' =
     Some (py_optional_str (lt_current_holder l)) \<and>
   map_of (LeaderboardToken_get_status l) ''queue'' = Some (PyList (lt_queue l))"
  by (simp add: RaymondServer_get_status_def LeaderboardToken_get_status_def Let_def)

text \<open>
  Claim C9 as stated fails for LeaderboardToken: the dictionary its status operation
  returns has no resource name and no queue length, and the holder is not under the key
  \<^verbatim>\<open>holder\<close>.
\<close>

theorem leaderboard_token_status_counterexample:
  "map_of (LeaderboardToken_get_status LeaderboardToken_init) ''resource'' = None \<and>
   map_of (LeaderboardToken_get_status LeaderboardToken_init) ''holder'' = None \<and>
   map_of (LeaderboardToken_get_status LeaderboardToken_init) ''queue_length'' = None \<and>
   length (LeaderboardToken_get_status LeaderboardToken_init) = 3"
  by (simp add: LeaderboardToken_get_status_def)

section \<open>The offset estimators\<close>

text \<open>
  Claim C6. For the server's \<^verbatim>\<open>synchronize\<close> and the client's
  \<^verbatim>\<open>process_sync_response\<close> (where \<open>t1\<close> is the stored send instant): with
  \<open>delay = (t4 - t1) - (t3 - t2)\<close>, if \<open>0 < delay < 5\<close> the stored offset becomes
  \<open>((t2 - t1) + (t3 - t4)) / 2\<close> and the reference instant becomes the current clock
  reading; if \<open>delay \<le> 0\<close> or \<open>delay \<ge> 5\<close> the state is unchanged; in both cases the
  stored offset is returned.
\<close>

theorem offset_estimator_accepts_or_retains:
  "(0 < (t4 - t1) - (t3 - t2) \<and> (t4 - t1) - (t3 - t2) < 5 \<longrightarrow>
      offset (snd (synchronize s t1 t2 t3 t4 now)) = ((t2 - t1) + (t3 - t4)) / 2 \<and>
      reference_timestamp (snd (synchronize s t1 t2 t3 t4 now)) = now) \<and>
   ((t4 - t1) - (t3 - t2) \<le> 0 \<or> 5 \<le> (t4 - t1) - (t3 - t2) \<longrightarrow>
      snd (synchronize s t1 t2 t3 t4 now) = s) \<and>
   fst (synchronize s t1 t2 t3 t4 now) = offset (snd (synchronize s t1 t2 t3 t4 now)) \<and>
   (0 < (t4 - last_sync_time c) - (t3 - t2) \<and> (t4 - last_sync_time c) - (t3 - t2) < 5 \<longrightarrow>
      ntc_offset (snd (process_sync_response c t2 t3 t4 now)) =
        ((t2 - last_sync_time c) + (t3 - t4)) / 2 \<and>
      ntc_reference_timestamp (snd (process_sync_response c t2 t3 t4 now)) = now) \<and>
   ((t4 - last_sync_time c) - (t3 - t2) \<le> 0 \<or> 5 \<le> (t4 - last_sync_time c) - (t3 - t2) \<longrightarrow>
      snd (process_sync_response c t2 t3 t4 now) = c) \<and>
   fst (process_sync_response c t2 t3 t4 now) =
     ntc_offset (snd (process_sync_response c t2 t3 t4 now))"
  by (simp add: synchronize_def process_sync_response_def Let_def)

lemma ntc_requested_last: "last_sync_time ntc_requested = 0"
  by (simp add: ntc_requested_def request_sync_def NetworkTimeClient_init_def)

theorem offset_estimator_accepts_or_retains_witness:
  "(0::real) < (4 - 0) - (2 - 1) \<and> ((4::real) - 0) - (2 - 1) < 5 \<and>
   offset (snd (synchronize (NetworkTimeProtocol_init 0) 0 1 2 4 5)) = - (1 / 2) \<and>
   reference_timestamp (snd (synchronize (NetworkTimeProtocol_init 0) 0 1 2 4 5)) = 5 \<and>
   (5::real) \<le> (10 - 0) - (0 - 0) \<and>
   snd (synchronize (NetworkTimeProtocol_init 0) 0 0 0 10 11) = NetworkTimeProtocol_init 0 \<and>
   ntc_offset (snd (process_sync_response ntc_requested 1 2 4 5)) = - (1 / 2) \<and>
   snd (process_sync_response ntc_requested 0 0 10 11) = ntc_requested"
  using offset_estimator_accepts_or_retains [of 4 0 2 1 "NetworkTimeProtocol_init 0" 5 ntc_requested]
    offset_estimator_accepts_or_retains [of 10 0 0 0 "NetworkTimeProtocol_init 0" 11 ntc_requested]
  by (simp add: ntc_requested_last)

section \<open>TimeWarpManager\<close>







text \<open>
  Claim C7 fails on the code of TimeWarpManager. The callback
  \<^verbatim>\<open>_auto_deactivate_time_warp\<close> takes the guard and, when the stored end instant
  matches, calls \<^verbatim>\<open>deactivate_time_warp\<close>, which takes the same non-reentrant guard
  again: the callback never returns and the session is never removed. The session that
  \<^verbatim>\<open>activate_time_warp\<close> opens for client X at instant 0 comes with a timer for client X
  and end instant 90; when that timer fires at instant 90, the callback does not return.
\<close>

theorem auto_deactivate_time_warp_never_returns:
  "activate_time_warp (TimeWarpManager_init 90 120) ''X'' 0 =
     Some (((True, 90, TW_Time_Warp_activated), Some (Timer 90 ''X'' 90)), tw_session_X) \<and>
   active_warps tw_session_X ''X'' = Some (0, 90) \<and>
   auto_deactivate_time_warp tw_session_X ''X'' 90 90 = None"
  by (simp add: activate_time_warp_def auto_deactivate_time_warp_def deactivate_time_warp_def
        with_lock_def tw_session_X_def TimeWarpManager_init_def Let_def)

text \<open>The parts of claim C7 that hold: a stale callback of TimeWarpManager leaves the
  state as it is, and the callback of the timer-based RicartAgrawala leaves the state as
  it is unless holder and timestamp match, in which case it does what the explicit
  release does. A matching callback of TimeWarpManager never returns, whatever the
  state.\<close>

lemma auto_deactivate_stale:
  assumes "\<not> tw_lock s"
    and "\<forall>start_time. active_warps s c \<noteq> Some (start_time, expected)"
  shows "auto_deactivate_time_warp s c expected t = Some ((), s)"
  using assms
  by (auto simp: auto_deactivate_time_warp_def with_lock_def split: option.splits)

lemma auto_deactivate_matching_never_returns:
  "active_warps s c = Some (start_time, expected) \<Longrightarrow>
   auto_deactivate_time_warp s c expected t = None"
  by (simp add: auto_deactivate_time_warp_def deactivate_time_warp_def with_lock_def)

lemma auto_release_stale:
  "in_critical_section s \<noteq> Some c \<or> cs_timestamp s \<noteq> Some ts \<Longrightarrow>
   auto_release_critical_section s c ts t = s"
  by (auto simp: auto_release_critical_section_def)

lemma auto_release_matching:
  "in_critical_section s = Some c \<Longrightarrow> cs_timestamp s = Some ts \<Longrightarrow>
   auto_release_critical_section s c ts t = snd (release_critical_section s c t) \<and>
   fst (release_critical_section s c t) \<and>
   in_critical_section (auto_release_critical_section s c ts t) = None \<and>
   ra_cooldowns (auto_release_critical_section s c ts t) c = Some (t + ra_cooldown_duration s)"
  by (simp add: auto_release_critical_section_def release_critical_section_def
        internal_release_critical_section_def)

text \<open>
  Claim C3 fails on the code. In the simple RicartAgrawala variant
  \<^verbatim>\<open>request_critical_section\<close> and \<^verbatim>\<open>get_status\<close> read \<^verbatim>\<open>time.time()\<close> in a module
  that does not import \<^verbatim>\<open>time\<close>: both raise \<^verbatim>\<open>NameError\<close>. In TimeWarpManager
  \<^verbatim>\<open>is_time_warp_active\<close> on a session whose end instant has passed calls
  \<^verbatim>\<open>deactivate_time_warp\<close> while it holds the non-reentrant guard and never returns, and
  neither does \<^verbatim>\<open>get_score_multiplier\<close>, which calls it.
\<close>

theorem manager_operations_not_total:
  "fst (simple_request_critical_section simple_RicartAgrawala_init ''A'' 1 0) =
     Inl (NameError ''time'') \<and>
   simple_get_status simple_RicartAgrawala_init 0 = Inl (NameError ''time'') \<and>
   active_warps tw_session_X ''X'' = Some (0, 90) \<and>
   is_time_warp_active tw_session_X ''X'' 100 = None \<and>
   get_score_multiplier tw_session_X ''X'' 100 = None"
  by (simp add: simple_request_critical_section_def simple_get_status_def load_global_def
        module_globals_def is_time_warp_active_def get_score_multiplier_def
        deactivate_time_warp_def with_lock_def tw_session_X_def TimeWarpManager_init_def)

text \<open>The two operations of the simple variant raise in every state.\<close>

lemma simple_ops_raise:
  "fst (simple_request_critical_section s p ts t) = Inl (NameError ''time'')"
  "simple_get_status s t = Inl (NameError ''time'')"
  by (simp_all add: simple_request_critical_section_def simple_get_status_def load_global_def
        module_globals_def)

end
